theory Spec2Isabelle
  imports Complex_Main "HOL-Library.AList" "HOL-Library.Finite_Map"
begin

section \<open>Data model\<close>

text \<open>
  The records follow the interfaces of \<^verbatim>\<open>lib/roomManager.ts\<close> and
  \<^verbatim>\<open>lib/rateLimiter.ts\<close>. A JavaScript \<^verbatim>\<open>number\<close> holding a value of
  \<^verbatim>\<open>Date.now()\<close> (milliseconds since the epoch) is an \<open>int\<close>: these values and their
  differences are integers far below \<open>2 ^ 53\<close>, which doubles hold and subtract exactly. A
  \<^verbatim>\<open>number\<close> holding seconds or a percentage is the \<open>real\<close> that the double denotes;
  the sum and the quotient that the code computes on such numbers are rounded as the
  double operations round them (section on double arithmetic below). NaN and the
  infinities occur only among the numbers of a request body, which have a type of their own.
  Field names that would clash with a HOL constant or between two records carry a prefix.
\<close>

record Room =
  room_id :: string
  room_name :: string
  createdBy :: string
  createdAt :: int
  maxUsers :: int
  isPublic :: bool

record RoomOptions =
  opt_name :: "string option"
  opt_maxUsers :: "int option"
  opt_isPublic :: "bool option"

record User =
  user_id :: string
  city :: string
  timezone :: string
  flag :: string
  connectedAt :: int
  lastSeen :: int
  instance_id :: "string option"

record VideoState =
  isPlaying :: bool
  currentTime :: real
  duration :: real
  serverTimestamp :: int
  lastUpdateTime :: int

text \<open>\<^verbatim>\<open>Partial<VideoState>\<close>: every field may be missing.\<close>

record VideoStatePartial =
  p_isPlaying :: "bool option"
  p_currentTime :: "real option"
  p_duration :: "real option"
  p_serverTimestamp :: "int option"
  p_lastUpdateTime :: "int option"

record CursorData =
  userId :: string
  cursor_city :: string
  cursor_flag :: string
  cursor_x :: real
  cursor_y :: real
  cursor_timestamp :: int

record RateLimitConfig =
  limit_max :: int
  windowMs :: int

record RateLimitResult =
  allowed :: bool
  remaining :: int
  resetIn :: int
  result_count :: int

record LocalBucket =
  bucket_count :: int
  resetAt :: int

datatype RateLimitAction = Cursor | Reaction | Sync | Message | RoomJoin | VideoControl

text \<open>
  A Redis hash: fields in insertion order, and the time to live of the key (seconds) when
  one was set. A key whose hash is empty does not exist.
\<close>

type_synonym 'v rhash = "(string \<times> 'v) list \<times> int option"

text \<open>
  The state of one server process together with the Redis server it talks to.

  \<^item> \<open>clock\<close> is the sequence of values that the coming calls of \<^verbatim>\<open>Date.now()\<close> return.
  \<^item> \<open>isConnectedFlag\<close> and \<open>redisOpen\<close> are the module variable of \<^verbatim>\<open>lib/redis.ts\<close>
    and \<^verbatim>\<open>redisClient?.isOpen ?? false\<close>.
  \<^item> The Redis keyspace is one table per kind of value, indexed by the full key. The key
    templates of \<^verbatim>\<open>KEYS\<close> and of the rate limiter never produce the same key for two
    kinds (lemma \<open>KEYS_disjoint\<close> below), so no key holds two kinds of value. The JSON text
    stored under a key is represented by the value it was serialised from. Times to live
    are recorded; the expiry of a key with the passing of time is not a step of the model.
  \<^item> \<open>localRooms\<close>, \<open>localRoomUsers\<close>, \<open>localVideoStates\<close> are the fallback maps of the
    room manager, \<open>localBuckets\<close> and \<open>connectionAttempts\<close> those of the rate limiter,
    \<open>cursorBatches\<close> the accumulator of the server. A JavaScript \<^verbatim>\<open>Map\<close> that is
    iterated is an association list in insertion order; the others are maps.
\<close>

record world =
  clock :: "nat \<Rightarrow> int"
  isConnectedFlag :: bool
  redisOpen :: bool
  redis_strRoom :: "string \<rightharpoonup> Room \<times> int"
  redis_strVideo :: "string \<rightharpoonup> VideoState \<times> int"
  redis_hashRoom :: "string \<rightharpoonup> Room rhash"
  redis_hashUser :: "string \<rightharpoonup> User rhash"
  redis_hashCursor :: "string \<rightharpoonup> CursorData rhash"
  redis_counter :: "string \<rightharpoonup> int \<times> int option"
  localRooms :: "(string \<times> Room) list"
  localRoomUsers :: "string \<rightharpoonup> (string \<times> User) list"
  localVideoStates :: "string \<rightharpoonup> VideoState"
  localBuckets :: "string \<rightharpoonup> LocalBucket"
  connectionAttempts :: "string \<rightharpoonup> int list"
  cursorBatches :: "(string \<times> (string \<times> CursorData) list) list"

section \<open>Double arithmetic\<close>

text \<open>
  The operations \<^verbatim>\<open>+\<close> and \<^verbatim>\<open>/\<close> of JavaScript on numbers are those of IEEE 754
  binary64: the exact result rounded to the nearest double, ties to the even significand.
  A double other than 0 is \<open>m * 2 ^ (e - 52)\<close> with \<open>2 ^ 52 \<le> \<bar>m\<bar> < 2 ^ 53\<close>; the exponent
  is taken as unbounded (no overflow, no subnormal numbers), which the seconds and
  milliseconds of the video state never reach.
\<close>

text \<open>The integer nearest to \<open>q\<close>, the even one of two that are equally near.\<close>

definition rne :: "real \<Rightarrow> int" where
  "rne q =
     (let f = \<lfloor>q\<rfloor>; d = q - of_int f
      in if d < 1 / 2 then f else if d > 1 / 2 then f + 1 else if even f then f else f + 1)"

text \<open>
  The exponent \<open>e\<close> with \<open>2 ^ e \<le> a < 2 ^ (e + 1)\<close> of a positive number: by halving from
  1 upwards, by doubling below 1.
\<close>

function halvings :: "real \<Rightarrow> int" where
  "halvings a = (if a < 2 then 0 else 1 + halvings (a / 2))"
  by pat_completeness auto
termination
proof (relation "measure (\<lambda>a. nat \<lfloor>a\<rfloor>)")
  show "wf (measure (\<lambda>a::real. nat \<lfloor>a\<rfloor>))" by simp
next
  fix a :: real assume "\<not> a < 2"
  then have a: "2 \<le> a" by simp
  have "\<lfloor>a / 2\<rfloor> < \<lfloor>a\<rfloor>"
  proof -
    have "a / 2 < of_int \<lfloor>a\<rfloor>" using a by linarith
    then show ?thesis by (simp add: floor_less_iff)
  qed
  moreover have "0 < \<lfloor>a\<rfloor>" using a by simp
  ultimately show "(a / 2, a) \<in> measure (\<lambda>a. nat \<lfloor>a\<rfloor>)" by simp
qed

function doublings :: "real \<Rightarrow> int" where
  "doublings a = (if a \<le> 0 \<or> 1 \<le> a then 0 else doublings (2 * a) - 1)"
  by pat_completeness auto
termination
proof (relation "measure (\<lambda>a. nat \<lceil>1 / a\<rceil>)")
  show "wf (measure (\<lambda>a::real. nat \<lceil>1 / a\<rceil>))" by simp
next
  fix a :: real assume "\<not> (a \<le> 0 \<or> 1 \<le> a)"
  then have a: "0 < a" "a < 1" by simp_all
  then have y: "1 < 1 / a" by simp
  then have c: "2 \<le> \<lceil>1 / a\<rceil>" by linarith
  have "1 / (2 * a) = (1 / a) / 2" by simp
  also have "\<dots> \<le> of_int \<lceil>1 / a\<rceil> / 2" by (simp add: divide_right_mono)
  also have "\<dots> \<le> of_int (\<lceil>1 / a\<rceil> - 1)" using c by simp
  finally have "\<lceil>1 / (2 * a)\<rceil> \<le> \<lceil>1 / a\<rceil> - 1" by (simp only: ceiling_le_iff)
  with c have "nat \<lceil>1 / (2 * a)\<rceil> < nat \<lceil>1 / a\<rceil>" by linarith
  then show "(2 * a, a) \<in> measure (\<lambda>a. nat \<lceil>1 / a\<rceil>)" by (simp only: in_measure)
qed

declare halvings.simps [simp del] doublings.simps [simp del]

definition binade :: "real \<Rightarrow> int" where
  "binade a = (if 1 \<le> a then halvings a else doublings a)"

definition pow2 :: "int \<Rightarrow> real" where
  "pow2 k = (if 0 \<le> k then 2 ^ nat k else 1 / 2 ^ nat (- k))"

text \<open>A positive number rounded to a multiple of the unit in the last place of its binade.\<close>

definition round_in_binade :: "int \<Rightarrow> real \<Rightarrow> real" where
  "round_in_binade e a = of_int (rne (a / pow2 (e - 52))) * pow2 (e - 52)"

text \<open>The double nearest to a real number.\<close>

definition to_double :: "real \<Rightarrow> real" where
  "to_double x = (if x = 0 then 0 else sgn x * round_in_binade (binade \<bar>x\<bar>) \<bar>x\<bar>)"

text \<open>\<^verbatim>\<open>x + y\<close> and \<^verbatim>\<open>x / y\<close> on doubles.\<close>

definition js_add :: "real \<Rightarrow> real \<Rightarrow> real" where
  "js_add x y = to_double (x + y)"

definition js_div :: "real \<Rightarrow> real \<Rightarrow> real" where
  "js_div x y = to_double (x / y)"

section \<open>The clock\<close>

text \<open>\<^verbatim>\<open>Date.now()\<close>: the next reading of the clock; the later readings remain.\<close>

definition Date_now :: "world \<Rightarrow> int \<times> world" where
  "Date_now w = (clock w 0, w\<lparr>clock := (\<lambda>n. clock w (Suc n))\<rparr>)"


section \<open>The Redis port (lib/redis.ts)\<close>

definition isRedisConnected :: "world \<Rightarrow> bool" where
  "isRedisConnected w = (isConnectedFlag w \<and> redisOpen w)"

subsection \<open>Commands of the Redis server on one table\<close>

definition redis_hSet :: "string \<Rightarrow> string \<Rightarrow> 'v \<Rightarrow> (string \<rightharpoonup> 'v rhash) \<Rightarrow> (string \<rightharpoonup> 'v rhash)" where
  "redis_hSet key field v t =
     (case t key of
        None \<Rightarrow> t(key \<mapsto> ([(field, v)], None))
      | Some (h, ttl) \<Rightarrow> t(key \<mapsto> (AList.update field v h, ttl)))"

definition redis_hDel :: "string \<Rightarrow> string \<Rightarrow> (string \<rightharpoonup> 'v rhash) \<Rightarrow> (string \<rightharpoonup> 'v rhash)" where
  "redis_hDel key field t =
     (case t key of
        None \<Rightarrow> t
      | Some (h, ttl) \<Rightarrow>
          (let h' = AList.delete field h
           in if h' = [] then t(key := None) else t(key \<mapsto> (h', ttl))))"

definition redis_hGetAll :: "string \<Rightarrow> (string \<rightharpoonup> 'v rhash) \<Rightarrow> (string \<times> 'v) list" where
  "redis_hGetAll key t = (case t key of None \<Rightarrow> [] | Some (h, ttl) \<Rightarrow> h)"

definition redis_hLen :: "string \<Rightarrow> (string \<rightharpoonup> 'v rhash) \<Rightarrow> int" where
  "redis_hLen key t = int (length (redis_hGetAll key t))"

text \<open>\<^verbatim>\<open>EXPIRE key seconds\<close>: no effect on a missing key; a non-positive time deletes the key.\<close>

definition redis_expire :: "string \<Rightarrow> int \<Rightarrow> (string \<rightharpoonup> 'a \<times> int option) \<Rightarrow> (string \<rightharpoonup> 'a \<times> int option)" where
  "redis_expire key seconds t =
     (case t key of
        None \<Rightarrow> t
      | Some (v, ttl) \<Rightarrow> if seconds \<le> 0 then t(key := None) else t(key \<mapsto> (v, Some seconds)))"

text \<open>\<^verbatim>\<open>INCR key\<close>: a missing key counts from 0; the time to live is kept.\<close>

definition redis_incr :: "string \<Rightarrow> (string \<rightharpoonup> int \<times> int option) \<Rightarrow> int \<times> (string \<rightharpoonup> int \<times> int option)" where
  "redis_incr key t =
     (case t key of
        None \<Rightarrow> (1, t(key \<mapsto> (1, None)))
      | Some (c, ttl) \<Rightarrow> (c + 1, t(key \<mapsto> (c + 1, ttl))))"

text \<open>\<^verbatim>\<open>DEL key\<close>: whatever the key holds is removed.\<close>

definition redis_del :: "string \<Rightarrow> world \<Rightarrow> world" where
  "redis_del key w =
     w\<lparr>redis_strRoom := (redis_strRoom w)(key := None),
       redis_strVideo := (redis_strVideo w)(key := None),
       redis_hashRoom := (redis_hashRoom w)(key := None),
       redis_hashUser := (redis_hashUser w)(key := None),
       redis_hashCursor := (redis_hashCursor w)(key := None),
       redis_counter := (redis_counter w)(key := None)\<rparr>"

text \<open>\<^verbatim>\<open>HDEL key field\<close> on the keyspace: the hash under the key, of whatever kind, loses the field.\<close>

definition redis_hDel_world :: "string \<Rightarrow> string \<Rightarrow> world \<Rightarrow> world" where
  "redis_hDel_world key field w =
     w\<lparr>redis_hashRoom := redis_hDel key field (redis_hashRoom w),
       redis_hashUser := redis_hDel key field (redis_hashUser w),
       redis_hashCursor := redis_hDel key field (redis_hashCursor w)\<rparr>"

subsection \<open>Helper functions of lib/redis.ts\<close>

text \<open>
  Each helper returns its sentinel when the client is not open. \<^verbatim>\<open>setWithExpiry\<close>,
  \<^verbatim>\<open>getJSON\<close>, \<^verbatim>\<open>setHash\<close> and \<^verbatim>\<open>getHashAll\<close> are generic in the source; here is one
  instance for each type of value they are called with.
\<close>

definition setWithExpiry_Room :: "string \<Rightarrow> Room \<Rightarrow> int \<Rightarrow> world \<Rightarrow> bool \<times> world" where
  "setWithExpiry_Room key v expirySeconds w =
     (if \<not> redisOpen w then (False, w)
      else (True, w\<lparr>redis_strRoom := (redis_strRoom w)(key \<mapsto> (v, expirySeconds))\<rparr>))"

definition setWithExpiry_Video :: "string \<Rightarrow> VideoState \<Rightarrow> int \<Rightarrow> world \<Rightarrow> bool \<times> world" where
  "setWithExpiry_Video key v expirySeconds w =
     (if \<not> redisOpen w then (False, w)
      else (True, w\<lparr>redis_strVideo := (redis_strVideo w)(key \<mapsto> (v, expirySeconds))\<rparr>))"

definition getJSON_Room :: "string \<Rightarrow> world \<Rightarrow> Room option" where
  "getJSON_Room key w =
     (if \<not> redisOpen w then None
      else (case redis_strRoom w key of None \<Rightarrow> None | Some (v, ttl) \<Rightarrow> Some v))"

definition getJSON_Video :: "string \<Rightarrow> world \<Rightarrow> VideoState option" where
  "getJSON_Video key w =
     (if \<not> redisOpen w then None
      else (case redis_strVideo w key of None \<Rightarrow> None | Some (v, ttl) \<Rightarrow> Some v))"

definition setHash_User :: "string \<Rightarrow> string \<Rightarrow> User \<Rightarrow> world \<Rightarrow> bool \<times> world" where
  "setHash_User key field v w =
     (if \<not> redisOpen w then (False, w)
      else (True, w\<lparr>redis_hashUser := redis_hSet key field v (redis_hashUser w)\<rparr>))"

definition setHash_Cursor :: "string \<Rightarrow> string \<Rightarrow> CursorData \<Rightarrow> world \<Rightarrow> bool \<times> world" where
  "setHash_Cursor key field v w =
     (if \<not> redisOpen w then (False, w)
      else (True, w\<lparr>redis_hashCursor := redis_hSet key field v (redis_hashCursor w)\<rparr>))"

text \<open>The result is a JavaScript object, that is a mapping from field to value.\<close>

definition getHashAll_User :: "string \<Rightarrow> world \<Rightarrow> (string \<rightharpoonup> User)" where
  "getHashAll_User key w =
     (if \<not> redisOpen w then Map.empty else map_of (redis_hGetAll key (redis_hashUser w)))"

definition getHashAll_Cursor :: "string \<Rightarrow> world \<Rightarrow> (string \<rightharpoonup> CursorData)" where
  "getHashAll_Cursor key w =
     (if \<not> redisOpen w then Map.empty else map_of (redis_hGetAll key (redis_hashCursor w)))"

definition deleteHashField :: "string \<Rightarrow> string \<Rightarrow> world \<Rightarrow> bool \<times> world" where
  "deleteHashField key field w =
     (if \<not> redisOpen w then (False, w) else (True, redis_hDel_world key field w))"

definition incrementWithExpiry :: "string \<Rightarrow> int \<Rightarrow> world \<Rightarrow> int \<times> world" where
  "incrementWithExpiry key expirySeconds w =
     (if \<not> redisOpen w then (0, w)
      else
        (let (n, t) = redis_incr key (redis_counter w);
             w1 = w\<lparr>redis_counter := t\<rparr>;
             w2 = (if n = 1
                   then w1\<lparr>redis_counter := redis_expire key expirySeconds (redis_counter w1)\<rparr>
                   else w1)
         in (n, w2)))"

section \<open>Rate limiter (lib/rateLimiter.ts)\<close>

fun LIMITS :: "RateLimitAction \<Rightarrow> RateLimitConfig" where
  "LIMITS Cursor = \<lparr>limit_max = 20, windowMs = 1000\<rparr>"
| "LIMITS Reaction = \<lparr>limit_max = 5, windowMs = 1000\<rparr>"
| "LIMITS Sync = \<lparr>limit_max = 10, windowMs = 1000\<rparr>"
| "LIMITS Message = \<lparr>limit_max = 30, windowMs = 1000\<rparr>"
| "LIMITS RoomJoin = \<lparr>limit_max = 5, windowMs = 10000\<rparr>"
| "LIMITS VideoControl = \<lparr>limit_max = 10, windowMs = 1000\<rparr>"

text \<open>The string of an action, as it appears in the key of its counter.\<close>

fun action_name :: "RateLimitAction \<Rightarrow> string" where
  "action_name Cursor = ''cursor''"
| "action_name Reaction = ''reaction''"
| "action_name Sync = ''sync''"
| "action_name Message = ''message''"
| "action_name RoomJoin = ''roomJoin''"
| "action_name VideoControl = ''videoControl''"

definition rateLimitKey :: "RateLimitAction \<Rightarrow> string \<Rightarrow> string" where
  "rateLimitKey action uid = ''ratelimit:'' @ action_name action @ '':'' @ uid"

definition incrementLocalBucket :: "string \<Rightarrow> int \<Rightarrow> world \<Rightarrow> int \<times> world" where
  "incrementLocalBucket key windowMs' w =
     (let (now, w1) = Date_now w;
          fresh = (1, w1\<lparr>localBuckets :=
                     (localBuckets w1)(key \<mapsto> \<lparr>bucket_count = 1, resetAt = now + windowMs'\<rparr>)\<rparr>)
      in case localBuckets w1 key of
           None \<Rightarrow> fresh
         | Some bucket \<Rightarrow>
             if now > resetAt bucket then fresh
             else (bucket_count bucket + 1,
                   w1\<lparr>localBuckets :=
                     (localBuckets w1)(key \<mapsto> bucket\<lparr>bucket_count := bucket_count bucket + 1\<rparr>)\<rparr>))"

text \<open>
  \<^verbatim>\<open>checkRateLimit\<close>. The branch for an action without configuration cannot be taken:
  every value of \<open>RateLimitAction\<close> has an entry in \<open>LIMITS\<close>.
\<close>

definition checkRateLimit :: "string \<Rightarrow> RateLimitAction \<Rightarrow> world \<Rightarrow> RateLimitResult \<times> world" where
  "checkRateLimit uid action w =
     (let config = LIMITS action;
          key = rateLimitKey action uid;
          windowSeconds = \<lceil>real_of_int (windowMs config) / 1000\<rceil>;
          (n, w1) = (if isRedisConnected w
                     then incrementWithExpiry key windowSeconds w
                     else incrementLocalBucket key (windowMs config) w)
      in (\<lparr>allowed = (n \<le> limit_max config),
           remaining = max 0 (limit_max config - n),
           resetIn = windowMs config,
           result_count = n\<rparr>, w1))"

subsection \<open>Connection admission\<close>

definition connKey :: "string \<Rightarrow> string" where
  "connKey ip = ''conn:'' @ ip"

text \<open>The attempts that the filter of \<^verbatim>\<open>checkConnectionLimit\<close> keeps at time \<open>now\<close>.\<close>

definition recentAttempts :: "int \<Rightarrow> int list \<Rightarrow> int list" where
  "recentAttempts now attempts = filter (\<lambda>t. now - t < 60000) attempts"

text \<open>
  \<^verbatim>\<open>checkConnectionLimit(ip, maxPerMinute = 10)\<close>: the second argument is \<open>None\<close> when
  the caller leaves it out.
\<close>

definition checkConnectionLimit :: "string \<Rightarrow> int option \<Rightarrow> world \<Rightarrow> bool \<times> world" where
  "checkConnectionLimit ip maxPerMinuteArg w =
     (let maxPerMinute = (case maxPerMinuteArg of None \<Rightarrow> 10 | Some m \<Rightarrow> m);
          (now, w1) = Date_now w;
          key = connKey ip;
          attempts = (case connectionAttempts w1 key of None \<Rightarrow> [] | Some a \<Rightarrow> a);
          recent = recentAttempts now attempts
      in if int (length recent) \<ge> maxPerMinute then (False, w1)
         else (True, w1\<lparr>connectionAttempts := (connectionAttempts w1)(key \<mapsto> recent @ [now])\<rparr>))"

text \<open>The admission check at the head of the connection handler of the server.\<close>

definition connection_admission :: "string \<Rightarrow> world \<Rightarrow> bool \<times> world" where
  "connection_admission clientIP w = checkConnectionLimit clientIP (Some 20) w"

text \<open>A number of calls for the same address one after the other, with their answers.\<close>

fun checkConnectionLimit_repeat :: "nat \<Rightarrow> string \<Rightarrow> int option \<Rightarrow> world \<Rightarrow> bool list \<times> world" where
  "checkConnectionLimit_repeat 0 ip m w = ([], w)"
| "checkConnectionLimit_repeat (Suc k) ip m w =
     (let (r, w1) = checkConnectionLimit ip m w;
          (rs, w2) = checkConnectionLimit_repeat k ip m w1
      in (r # rs, w2))"

section \<open>Time exchange endpoint (app/api/time/route.ts)\<close>

text \<open>
  A number of a request body. \<^verbatim>\<open>JSON.parse\<close> gives a finite double, negative zero, or,
  for a literal beyond the range of the doubles such as \<^verbatim>\<open>1e400\<close>, an infinity.
\<close>

datatype js_number = Finite real | NegativeZero | PosInfinity | NegInfinity

text \<open>
  A value that \<^verbatim>\<open>request.json()\<close> returns. An object is the finite map from its
  property names to their values.
\<close>

datatype json = JNull | JBool bool | JNum js_number | JStr string | JArr "json list"
  | JObj "(string, json) fmap"

datatype js_error = TypeError

text \<open>
  \<^verbatim>\<open>const { clientSendTime } = body\<close>: destructuring \<^verbatim>\<open>null\<close> throws; a value
  without the property gives \<^verbatim>\<open>undefined\<close> (\<open>None\<close>).
\<close>

fun destructure_clientSendTime :: "json \<Rightarrow> js_error + json option" where
  "destructure_clientSendTime JNull = Inl TypeError"
| "destructure_clientSendTime (JObj members) = Inr (fmlookup members ''clientSendTime'')"
| "destructure_clientSendTime v = Inr None"

text \<open>
  The value that the text written by \<^verbatim>\<open>JSON.stringify\<close> denotes, which is what the
  client reads: an infinity is written as \<^verbatim>\<open>null\<close>, negative zero as \<^verbatim>\<open>0\<close>.
\<close>

fun stringify_number :: "js_number \<Rightarrow> json" where
  "stringify_number (Finite x) = JNum (Finite x)"
| "stringify_number NegativeZero = JNum (Finite 0)"
| "stringify_number PosInfinity = JNull"
| "stringify_number NegInfinity = JNull"

primrec JSON_stringify :: "json \<Rightarrow> json" where
  "JSON_stringify JNull = JNull"
| "JSON_stringify (JBool b) = JBool b"
| "JSON_stringify (JNum n) = stringify_number n"
| "JSON_stringify (JStr s) = JStr s"
| "JSON_stringify (JArr vs) = JArr (map JSON_stringify vs)"
| "JSON_stringify (JObj m) = JObj (fmmap JSON_stringify m)"

text \<open>
  The body of the 200 answer as the client reads it; \<open>clientSendTime\<close> is \<open>None\<close> when the
  property is \<^verbatim>\<open>undefined\<close>, which \<^verbatim>\<open>JSON.stringify\<close> leaves out.
\<close>

record TimeResponse =
  clientSendTime :: "json option"
  serverReceiveTime :: int
  serverSendTime :: int
  serverProcessingTime :: int

datatype response = Json200 TimeResponse | Json400 string

text \<open>
  \<^verbatim>\<open>POST\<close>. The body is \<open>None\<close> when \<^verbatim>\<open>request.json()\<close> rejects (the text is not
  JSON). Everything thrown inside the \<^verbatim>\<open>try\<close> block ends in the 400 answer.
  \<^verbatim>\<open>NextResponse.json\<close> writes the object with \<^verbatim>\<open>JSON.stringify\<close>.
\<close>

definition POST :: "json option \<Rightarrow> world \<Rightarrow> response \<times> world" where
  "POST request_body w =
     (let (receiveTime, w1) = Date_now w
      in case request_body of
           None \<Rightarrow> (Json400 ''Invalid request body'', w1)
         | Some body \<Rightarrow>
             (case destructure_clientSendTime body of
                Inl e \<Rightarrow> (Json400 ''Invalid request body'', w1)
              | Inr cst \<Rightarrow>
                  (let (sendTime, w2) = Date_now w1
                   in (Json200 \<lparr>clientSendTime = map_option JSON_stringify cst,
                                serverReceiveTime = receiveTime,
                                serverSendTime = sendTime,
                                serverProcessingTime = sendTime - receiveTime\<rparr>, w2))))"

section \<open>Room manager (lib/roomManager.ts)\<close>

definition ROOM_TTL :: int where
  "ROOM_TTL = 60 * 60 * 24"

definition KEYS_roomMeta :: "string \<Rightarrow> string" where
  "KEYS_roomMeta roomId = ''room:'' @ roomId @ '':meta''"

definition KEYS_roomUsers :: "string \<Rightarrow> string" where
  "KEYS_roomUsers roomId = ''room:'' @ roomId @ '':users''"

definition KEYS_roomVideo :: "string \<Rightarrow> string" where
  "KEYS_roomVideo roomId = ''room:'' @ roomId @ '':video''"

definition KEYS_roomCursors :: "string \<Rightarrow> string" where
  "KEYS_roomCursors roomId = ''room:'' @ roomId @ '':cursors''"

definition KEYS_allRooms :: string where
  "KEYS_allRooms = ''rooms:all''"

subsection \<open>Room operations\<close>

text \<open>
  \<^verbatim>\<open>a || b\<close> on a string and on a number: the empty string and 0 are falsy, as is a
  missing option. Where \<^verbatim>\<open>isRedisConnected()\<close> holds the client is open, so
  \<^verbatim>\<open>getRedisClient()\<close> is not null and the test \<^verbatim>\<open>if (redis)\<close> succeeds.
\<close>

definition createRoom :: "string \<Rightarrow> string \<Rightarrow> RoomOptions \<Rightarrow> world \<Rightarrow> Room \<times> world" where
  "createRoom roomId creatorId options w =
     (let (now, w1) = Date_now w;
          roomData = \<lparr>room_id = roomId,
                      room_name = (case opt_name options of
                                     None \<Rightarrow> ''Room '' @ roomId
                                   | Some n \<Rightarrow> if n = [] then ''Room '' @ roomId else n),
                      createdBy = creatorId,
                      createdAt = now,
                      maxUsers = (case opt_maxUsers options of
                                    None \<Rightarrow> 10000
                                  | Some m \<Rightarrow> if m = 0 then 10000 else m),
                      isPublic = (opt_isPublic options \<noteq> Some False)\<rparr>
      in if isRedisConnected w1
         then
           (let w2 = w1\<lparr>redis_hashRoom := redis_hSet KEYS_allRooms roomId roomData (redis_hashRoom w1)\<rparr>;
                (ok, w3) = setWithExpiry_Room (KEYS_roomMeta roomId) roomData ROOM_TTL w2
            in (roomData, w3))
         else (roomData, w1\<lparr>localRooms := AList.update roomId roomData (localRooms w1)\<rparr>))"

definition getRoom :: "string \<Rightarrow> world \<Rightarrow> Room option" where
  "getRoom roomId w =
     (if isRedisConnected w then getJSON_Room (KEYS_roomMeta roomId) w
      else map_of (localRooms w) roomId)"

definition getAllRooms :: "world \<Rightarrow> Room list" where
  "getAllRooms w =
     (if isRedisConnected w then map snd (redis_hGetAll KEYS_allRooms (redis_hashRoom w))
      else map snd (localRooms w))"

definition deleteRoom :: "string \<Rightarrow> world \<Rightarrow> world" where
  "deleteRoom roomId w =
     (if isRedisConnected w
      then
        (let w1 = redis_hDel_world KEYS_allRooms roomId w;
             w2 = redis_del (KEYS_roomMeta roomId) w1;
             w3 = redis_del (KEYS_roomUsers roomId) w2;
             w4 = redis_del (KEYS_roomVideo roomId) w3
         in redis_del (KEYS_roomCursors roomId) w4)
      else
        w\<lparr>localRooms := AList.delete roomId (localRooms w),
          localRoomUsers := (localRoomUsers w)(roomId := None),
          localVideoStates := (localVideoStates w)(roomId := None)\<rparr>)"

subsection \<open>User membership\<close>

definition addUserToRoom :: "string \<Rightarrow> User \<Rightarrow> world \<Rightarrow> world" where
  "addUserToRoom roomId userData w =
     (if isRedisConnected w
      then
        (let (ok, w1) = setHash_User (KEYS_roomUsers roomId) (user_id userData) userData w
         in w1\<lparr>redis_hashUser := redis_expire (KEYS_roomUsers roomId) ROOM_TTL (redis_hashUser w1)\<rparr>)
      else
        (let users = (case localRoomUsers w roomId of None \<Rightarrow> [] | Some m \<Rightarrow> m)
         in w\<lparr>localRoomUsers :=
                (localRoomUsers w)(roomId \<mapsto> AList.update (user_id userData) userData users)\<rparr>))"

definition removeUserFromRoom :: "string \<Rightarrow> string \<Rightarrow> world \<Rightarrow> world" where
  "removeUserFromRoom roomId uid w =
     (if isRedisConnected w
      then
        (let (ok1, w1) = deleteHashField (KEYS_roomUsers roomId) uid w;
             (ok2, w2) = deleteHashField (KEYS_roomCursors roomId) uid w1
         in w2)
      else
        (case localRoomUsers w roomId of
           None \<Rightarrow> w
         | Some m \<Rightarrow> w\<lparr>localRoomUsers := (localRoomUsers w)(roomId \<mapsto> AList.delete uid m)\<rparr>))"

definition getRoomUsers :: "string \<Rightarrow> world \<Rightarrow> (string \<rightharpoonup> User)" where
  "getRoomUsers roomId w =
     (if isRedisConnected w then getHashAll_User (KEYS_roomUsers roomId) w
      else (case localRoomUsers w roomId of None \<Rightarrow> Map.empty | Some m \<Rightarrow> map_of m))"

definition getRoomUserCount :: "string \<Rightarrow> world \<Rightarrow> int" where
  "getRoomUserCount roomId w =
     (if isRedisConnected w then redis_hLen (KEYS_roomUsers roomId) (redis_hashUser w)
      else (case localRoomUsers w roomId of None \<Rightarrow> 0 | Some m \<Rightarrow> int (length m)))"

subsection \<open>Video state\<close>

text \<open>\<^verbatim>\<open>getDefaultVideoState\<close> reads the clock twice, for the two timestamps in turn.\<close>

definition getDefaultVideoState :: "world \<Rightarrow> VideoState \<times> world" where
  "getDefaultVideoState w =
     (let (t1, w1) = Date_now w;
          (t2, w2) = Date_now w1
      in (\<lparr>isPlaying = False, currentTime = 0, duration = 596,
           serverTimestamp = t1, lastUpdateTime = t2\<rparr>, w2))"

text \<open>The state that is stored for a room, in the store of the current mode, if any.\<close>

definition storedVideoState :: "string \<Rightarrow> world \<Rightarrow> VideoState option" where
  "storedVideoState roomId w =
     (if isRedisConnected w then getJSON_Video (KEYS_roomVideo roomId) w
      else localVideoStates w roomId)"

definition getVideoState :: "string \<Rightarrow> world \<Rightarrow> VideoState \<times> world" where
  "getVideoState roomId w =
     (case storedVideoState roomId w of
        Some state \<Rightarrow> (state, w)
      | None \<Rightarrow> getDefaultVideoState w)"

text \<open>The object spread \<^verbatim>\<open>{...currentState, ...state}\<close>.\<close>

definition spread :: "VideoState \<Rightarrow> VideoStatePartial \<Rightarrow> VideoState" where
  "spread cur p =
     \<lparr>isPlaying = (case p_isPlaying p of None \<Rightarrow> isPlaying cur | Some v \<Rightarrow> v),
      currentTime = (case p_currentTime p of None \<Rightarrow> currentTime cur | Some v \<Rightarrow> v),
      duration = (case p_duration p of None \<Rightarrow> duration cur | Some v \<Rightarrow> v),
      serverTimestamp = (case p_serverTimestamp p of None \<Rightarrow> serverTimestamp cur | Some v \<Rightarrow> v),
      lastUpdateTime = (case p_lastUpdateTime p of None \<Rightarrow> lastUpdateTime cur | Some v \<Rightarrow> v)\<rparr>"

text \<open>A complete state passed where a partial one is expected.\<close>

definition whole :: "VideoState \<Rightarrow> VideoStatePartial" where
  "whole s =
     \<lparr>p_isPlaying = Some (isPlaying s), p_currentTime = Some (currentTime s),
      p_duration = Some (duration s), p_serverTimestamp = Some (serverTimestamp s),
      p_lastUpdateTime = Some (lastUpdateTime s)\<rparr>"

definition setVideoState :: "string \<Rightarrow> VideoStatePartial \<Rightarrow> world \<Rightarrow> VideoState \<times> world" where
  "setVideoState roomId state w =
     (let (currentState, w1) = getVideoState roomId w;
          (ts, w2) = Date_now w1;
          videoState = (spread currentState state)\<lparr>serverTimestamp := ts\<rparr>
      in if isRedisConnected w2
         then
           (let (ok, w3) = setWithExpiry_Video (KEYS_roomVideo roomId) videoState ROOM_TTL w2
            in (videoState, w3))
         else (videoState, w2\<lparr>localVideoStates := (localVideoStates w2)(roomId \<mapsto> videoState)\<rparr>))"

text \<open>
  \<^verbatim>\<open>updateVideoTime\<close>. In standalone mode the object that the source mutates is the one
  in \<^verbatim>\<open>localVideoStates\<close>; \<^verbatim>\<open>setVideoState\<close> then reads it back and overwrites every
  field of it with the same values, so the stored result does not depend on the sharing.
  The function returns the object it mutated, not the one \<^verbatim>\<open>setVideoState\<close> stored.
\<close>

definition updateVideoTime :: "string \<Rightarrow> world \<Rightarrow> VideoState \<times> world" where
  "updateVideoTime roomId w =
     (let (state, w1) = getVideoState roomId w;
          (state1, w2) =
            (if isPlaying state
             then
               (let (now, w') = Date_now w1;
                    elapsed = js_div (real_of_int (now - lastUpdateTime state)) 1000;
                    s1 = state\<lparr>currentTime :=
                                 min (js_add (currentTime state) elapsed) (duration state)\<rparr>;
                    s2 = s1\<lparr>lastUpdateTime := now\<rparr>;
                    s3 = (if currentTime s2 \<ge> duration s2 then s2\<lparr>currentTime := 0\<rparr> else s2)
                in (s3, w'))
             else (state, w1));
          (ts, w3) = Date_now w2;
          state2 = state1\<lparr>serverTimestamp := ts\<rparr>;
          (stored, w4) = setVideoState roomId (whole state2) w3
      in (state2, w4))"

subsection \<open>Cursor state\<close>

definition updateCursor :: "string \<Rightarrow> string \<Rightarrow> CursorData \<Rightarrow> world \<Rightarrow> world" where
  "updateCursor roomId uid cursorData w =
     (if isRedisConnected w
      then snd (setHash_Cursor (KEYS_roomCursors roomId) uid cursorData w)
      else w)"

definition getRoomCursors :: "string \<Rightarrow> world \<Rightarrow> (string \<rightharpoonup> CursorData)" where
  "getRoomCursors roomId w =
     (if isRedisConnected w then getHashAll_Cursor (KEYS_roomCursors roomId) w
      else Map.empty)"

definition removeCursor :: "string \<Rightarrow> string \<Rightarrow> world \<Rightarrow> world" where
  "removeCursor roomId uid w =
     (if isRedisConnected w
      then snd (deleteHashField (KEYS_roomCursors roomId) uid w)
      else w)"

section \<open>The hub (server.ts)\<close>

subsection \<open>Cursor batching\<close>

text \<open>\<^verbatim>\<open>batchCursorUpdate\<close> on the map \<^verbatim>\<open>cursorBatches\<close>.\<close>

definition batchCursorUpdate ::
  "string \<Rightarrow> CursorData \<Rightarrow> (string \<times> (string \<times> CursorData) list) list
     \<Rightarrow> (string \<times> (string \<times> CursorData) list) list" where
  "batchCursorUpdate roomId cursorData batches =
     (let b1 = (if map_of batches roomId = None then AList.update roomId [] batches else batches)
      in AList.map_entry roomId (AList.update (userId cursorData) cursorData) b1)"

text \<open>
  The body of the flush interval: one pass over the entries of \<^verbatim>\<open>cursorBatches\<close>. The
  result is the list of the \<^verbatim>\<open>cursors:batch\<close> messages, each with the room it is sent
  to, and the map after the pass.
\<close>

fun flushCursorBatches ::
  "(string \<times> (string \<times> CursorData) list) list
     \<Rightarrow> (string \<times> CursorData list) list \<times> (string \<times> (string \<times> CursorData) list) list" where
  "flushCursorBatches [] = ([], [])"
| "flushCursorBatches ((roomId, cursors) # rest) =
     (let (emitted, rest') = flushCursorBatches rest
      in if length cursors > 0
         then ((roomId, map snd cursors) # emitted, (roomId, []) # rest')
         else (emitted, (roomId, cursors) # rest'))"

text \<open>A run of calls of \<^verbatim>\<open>batchCursorUpdate\<close>, in the order they are made.\<close>

definition batchCursorUpdates ::
  "(string \<times> CursorData) list \<Rightarrow> (string \<times> (string \<times> CursorData) list) list
     \<Rightarrow> (string \<times> (string \<times> CursorData) list) list" where
  "batchCursorUpdates calls batches = foldl (\<lambda>b (roomId, c). batchCursorUpdate roomId c b) batches calls"

text \<open>The cursor that the last of the calls for a room and a user passed, if there was one.\<close>

definition latestCursor :: "string \<Rightarrow> string \<Rightarrow> (string \<times> CursorData) list \<Rightarrow> CursorData option" where
  "latestCursor roomId uid calls =
     (case filter (\<lambda>(r, c). r = roomId \<and> userId c = uid) calls of
        [] \<Rightarrow> None
      | c # cs \<Rightarrow> Some (snd (last (c # cs))))"

subsection \<open>Video handlers\<close>




text \<open>The periodic tick: \<^verbatim>\<open>updateVideoTime\<close> for every room of \<^verbatim>\<open>getAllRooms\<close> in turn.\<close>

fun tick_rooms :: "Room list \<Rightarrow> world \<Rightarrow> (string \<times> VideoState) list \<times> world" where
  "tick_rooms [] w = ([], w)"
| "tick_rooms (room # rooms) w =
     (let (state, w1) = updateVideoTime (room_id room) w;
          (emitted, w2) = tick_rooms rooms w1
      in ((room_id room, state) # emitted, w2))"







section \<open>Notions used in the statements\<close>

text \<open>The world after \<open>k\<close> readings of the clock and nothing else.\<close>

definition advance :: "nat \<Rightarrow> world \<Rightarrow> world" where
  "advance k w = w\<lparr>clock := (\<lambda>n. clock w (n + k))\<rparr>"

text \<open>The attempts recorded for an address.\<close>

definition storedAttempts :: "string \<Rightarrow> world \<Rightarrow> int list" where
  "storedAttempts ip w = (case connectionAttempts w (connKey ip) of None \<Rightarrow> [] | Some a \<Rightarrow> a)"

text \<open>The world after a video state was written to the store of the current mode.\<close>

definition persistVideo :: "string \<Rightarrow> VideoState \<Rightarrow> world \<Rightarrow> world" where
  "persistVideo roomId v w =
     (if isRedisConnected w
      then w\<lparr>redis_strVideo := (redis_strVideo w)(KEYS_roomVideo roomId \<mapsto> (v, ROOM_TTL))\<rparr>
      else w\<lparr>localVideoStates := (localVideoStates w)(roomId \<mapsto> v)\<rparr>)"

text \<open>The number of clock readings of \<^verbatim>\<open>getVideoState\<close>: two when it builds the default.\<close>

definition reads :: "string \<Rightarrow> world \<Rightarrow> nat" where
  "reads roomId w = (if storedVideoState roomId w = None then 2 else 0)"

text \<open>
  A video state is in range, and was last updated no later than any coming reading of the
  clock.
\<close>

definition video_ok :: "world \<Rightarrow> VideoState \<Rightarrow> bool" where
  "video_ok w s =
     (0 \<le> currentTime s \<and> currentTime s \<le> duration s \<and> 0 < duration s
      \<and> (\<forall>n. lastUpdateTime s \<le> clock w n))"


text \<open>Every entry of the two room tables is filed under the id of its room.\<close>

definition rooms_keyed :: "world \<Rightarrow> bool" where
  "rooms_keyed w =
     ((\<forall>(k, room) \<in> set (redis_hGetAll KEYS_allRooms (redis_hashRoom w)). room_id room = k)
      \<and> (\<forall>(k, room) \<in> set (localRooms w). room_id room = k))"

text \<open>The numbers that occur in a value, and the values all of whose numbers are finite.\<close>

primrec numbers :: "json \<Rightarrow> js_number set" where
  "numbers JNull = {}"
| "numbers (JBool b) = {}"
| "numbers (JNum n) = {n}"
| "numbers (JStr s) = {}"
| "numbers (JArr vs) = \<Union> (set (map numbers vs))"
| "numbers (JObj m) = \<Union> (fmran' (fmmap numbers m))"

definition finite_numbers :: "json \<Rightarrow> bool" where
  "finite_numbers v = (\<forall>n \<in> numbers v. \<exists>x. n = Finite x)"

text \<open>The \<open>clientSendTime\<close> that a request body carries, if it is an object that has one.\<close>

definition sent_clientSendTime :: "json \<Rightarrow> json option" where
  "sent_clientSendTime body =
     (case body of JObj members \<Rightarrow> fmlookup members ''clientSendTime'' | _ \<Rightarrow> None)"

text \<open>The accumulator of a room in \<^verbatim>\<open>cursorBatches\<close>; a room without one has nothing pending.\<close>

definition accumulator ::
  "string \<Rightarrow> (string \<times> (string \<times> CursorData) list) list \<Rightarrow> (string \<times> CursorData) list" where
  "accumulator roomId batches = (case map_of batches roomId of None \<Rightarrow> [] | Some m \<Rightarrow> m)"

text \<open>The ids under which the rooms of the enumeration of \<^verbatim>\<open>getAllRooms\<close> are filed.\<close>

definition listedRoomIds :: "world \<Rightarrow> string list" where
  "listedRoomIds w =
     (if isRedisConnected w then map fst (redis_hGetAll KEYS_allRooms (redis_hashRoom w))
      else map fst (localRooms w))"

text \<open>A clock that starts at \<open>t\<close> and gains one millisecond with every reading.\<close>

definition clock_from :: "int \<Rightarrow> nat \<Rightarrow> int" where
  "clock_from t n = t + int n"


text \<open>The double nearest to 595.9, and the double nearest to 120.002.\<close>

definition double_595_9 :: real where
  "double_595_9 = 5241591831933747 / 8796093022208"


text \<open>A world with nothing stored, in cluster mode or in standalone mode.\<close>

definition empty_world :: "(nat \<Rightarrow> int) \<Rightarrow> bool \<Rightarrow> world" where
  "empty_world c conn =
     \<lparr>clock = c, isConnectedFlag = conn, redisOpen = conn,
      redis_strRoom = Map.empty, redis_strVideo = Map.empty, redis_hashRoom = Map.empty,
      redis_hashUser = Map.empty, redis_hashCursor = Map.empty, redis_counter = Map.empty,
      localRooms = [], localRoomUsers = Map.empty, localVideoStates = Map.empty,
      localBuckets = Map.empty, connectionAttempts = Map.empty, cursorBatches = []\<rparr>"

text \<open>
  A world in which ten connections from one address were admitted within the last ten
  seconds.
\<close>

definition crowded_world :: world where
  "crowded_world =
     (empty_world (clock_from 60000) False)
       \<lparr>connectionAttempts :=
          [connKey ''203.0.113.7'' \<mapsto>
             [50000, 51000, 52000, 53000, 54000, 55000, 56000, 57000, 58000, 59000]]\<rparr>"

text \<open>
  A world in which the room \<^verbatim>\<open>lobby1\<close> has the given video state stored, in the store of
  the given mode, and the clock reads 2000.
\<close>

definition video_world :: "bool \<Rightarrow> VideoState \<Rightarrow> world" where
  "video_world conn s =
     (if conn
      then (empty_world (clock_from 2000) True)
             \<lparr>redis_strVideo := [KEYS_roomVideo ''lobby1'' \<mapsto> (s, ROOM_TTL)]\<rparr>
      else (empty_world (clock_from 2000) False)\<lparr>localVideoStates := [''lobby1'' \<mapsto> s]\<rparr>)"

text \<open>
  A world in which \<^verbatim>\<open>createRoom\<close> was called for the room \<^verbatim>\<open>r1\<close> by two users, one
  call right after the other, and one in which a user then joined the room.
\<close>

definition no_options :: RoomOptions where
  "no_options = \<lparr>opt_name = None, opt_maxUsers = None, opt_isPublic = None\<rparr>"

definition twice_created :: "bool \<Rightarrow> world" where
  "twice_created conn =
     snd (createRoom ''r1'' ''user_bob'' no_options
            (snd (createRoom ''r1'' ''user_alice'' no_options (empty_world (clock_from 1000) conn))))"

definition alice :: User where
  "alice = \<lparr>user_id = ''user_alice'', city = ''Berlin'', timezone = ''Europe/Berlin'',
             flag = ''DE'', connectedAt = 900, lastSeen = 900, instance_id = Some ''instance-1''\<rparr>"

definition occupied_world :: "bool \<Rightarrow> world" where
  "occupied_world conn = addUserToRoom ''r1'' alice (twice_created conn)"

text \<open>The same with a second room, \<^verbatim>\<open>r2\<close>, created afterwards.\<close>

definition two_rooms :: "bool \<Rightarrow> world" where
  "two_rooms conn = snd (createRoom ''r2'' ''user_carol'' no_options (occupied_world conn))"

text \<open>A cursor of a user at a position and a time, and a run of cursor moves in two rooms.\<close>

definition cursor_at :: "string \<Rightarrow> real \<Rightarrow> real \<Rightarrow> int \<Rightarrow> CursorData" where
  "cursor_at uid px py t =
     \<lparr>userId = uid, cursor_city = ''Berlin'', cursor_flag = ''DE'',
      cursor_x = px, cursor_y = py, cursor_timestamp = t\<rparr>"

definition moves :: "(string \<times> CursorData) list" where
  "moves =
     [(''lobby1'', cursor_at ''user_a'' 10 10 1000),
      (''lobby2'', cursor_at ''user_c'' 5 5 1005),
      (''lobby1'', cursor_at ''user_b'' 20 20 1010),
      (''lobby1'', cursor_at ''user_a'' 30 30 1020)]"

section \<open>The clock and the worlds of the examples\<close>

lemma Date_now_advance: "Date_now w = (clock w 0, advance 1 w)"
  by (simp add: Date_now_def advance_def)

lemma advance_0 [simp]: "advance 0 w = w"
  by (simp add: advance_def)

lemma advance_advance [simp]: "advance j (advance k w) = advance (k + j) w"
  by (simp add: advance_def ac_simps)

lemma clock_advance [simp]: "clock (advance k w) n = clock w (n + k)"
  by (simp add: advance_def)

lemma advance_fields [simp]:
  "isConnectedFlag (advance k w) = isConnectedFlag w"
  "redisOpen (advance k w) = redisOpen w"
  "redis_strVideo (advance k w) = redis_strVideo w"
  "localVideoStates (advance k w) = localVideoStates w"
  "redis_counter (advance k w) = redis_counter w"
  "localBuckets (advance k w) = localBuckets w"
  "redis_hashRoom (advance k w) = redis_hashRoom w"
  "localRooms (advance k w) = localRooms w"
  "connectionAttempts (advance k w) = connectionAttempts w"
  by (simp_all add: advance_def)

lemma isRedisConnected_advance [simp]: "isRedisConnected (advance k w) = isRedisConnected w"
  by (simp add: isRedisConnected_def)


lemma empty_world_fields [simp]:
  "clock (empty_world c b) = c"
  "isConnectedFlag (empty_world c b) = b"
  "redisOpen (empty_world c b) = b"
  "redis_strRoom (empty_world c b) = Map.empty"
  "redis_strVideo (empty_world c b) = Map.empty"
  "redis_hashRoom (empty_world c b) = Map.empty"
  "redis_hashUser (empty_world c b) = Map.empty"
  "redis_hashCursor (empty_world c b) = Map.empty"
  "redis_counter (empty_world c b) = Map.empty"
  "localRooms (empty_world c b) = []"
  "localRoomUsers (empty_world c b) = Map.empty"
  "localVideoStates (empty_world c b) = Map.empty"
  "localBuckets (empty_world c b) = Map.empty"
  "connectionAttempts (empty_world c b) = Map.empty"
  "cursorBatches (empty_world c b) = []"
  by (simp_all add: empty_world_def)

lemma isRedisConnected_empty_world [simp]: "isRedisConnected (empty_world c b) = b"
  by (simp add: isRedisConnected_def)

section \<open>Rate limiter\<close>

lemma windowSeconds_LIMITS:
  "\<lceil>real_of_int (windowMs (LIMITS a)) / 1000\<rceil> = (if a = RoomJoin then 10 else 1)"
  by (cases a) simp_all

lemma windowSeconds_ms: "\<lceil>real_of_int (windowMs (LIMITS a)) / 1000\<rceil> * 1000 = windowMs (LIMITS a)"
  by (cases a) simp_all

lemma LIMITS_table:
  "(limit_max (LIMITS a), windowMs (LIMITS a)) =
     (case a of Cursor \<Rightarrow> (20, 1000) | Reaction \<Rightarrow> (5, 1000) | Sync \<Rightarrow> (10, 1000)
      | Message \<Rightarrow> (30, 1000) | RoomJoin \<Rightarrow> (5, 10000) | VideoControl \<Rightarrow> (10, 1000))"
  by (cases a) simp_all

lemma incrementWithExpiry_open:
  assumes "redisOpen w" "0 < secs"
  shows "incrementWithExpiry key secs w =
     (case redis_counter w key of
        None \<Rightarrow> (1, w\<lparr>redis_counter := (redis_counter w)(key \<mapsto> (1, Some secs))\<rparr>)
      | Some (c, ttl) \<Rightarrow>
          (c + 1, w\<lparr>redis_counter :=
                     (redis_counter w)(key \<mapsto> (c + 1, if c + 1 = 1 then Some secs else ttl))\<rparr>))"
proof (cases "redis_counter w key")
  case None
  then show ?thesis using assms
    by (simp add: incrementWithExpiry_def redis_incr_def redis_expire_def)
next
  case (Some p)
  obtain c ttl where p: "p = (c, ttl)" by (cases p)
  show ?thesis using assms Some p
    by (simp add: incrementWithExpiry_def redis_incr_def redis_expire_def)
qed

lemma incrementLocalBucket_eq:
  "incrementLocalBucket key wms w =
     (case localBuckets w key of
        None \<Rightarrow>
          (1, (advance 1 w)\<lparr>localBuckets :=
                 (localBuckets w)(key \<mapsto> \<lparr>bucket_count = 1, resetAt = clock w 0 + wms\<rparr>)\<rparr>)
      | Some b \<Rightarrow>
          if clock w 0 > resetAt b
          then (1, (advance 1 w)\<lparr>localBuckets :=
                      (localBuckets w)(key \<mapsto> \<lparr>bucket_count = 1, resetAt = clock w 0 + wms\<rparr>)\<rparr>)
          else (bucket_count b + 1,
                (advance 1 w)\<lparr>localBuckets :=
                   (localBuckets w)(key \<mapsto> b\<lparr>bucket_count := bucket_count b + 1\<rparr>)\<rparr>))"
  by (cases "localBuckets w key") (simp_all add: incrementLocalBucket_def Date_now_advance Let_def)

lemma checkRateLimit_result:
  "allowed (fst (checkRateLimit uid a w))
     = (result_count (fst (checkRateLimit uid a w)) \<le> limit_max (LIMITS a))"
  "resetIn (fst (checkRateLimit uid a w)) = windowMs (LIMITS a)"
  by (simp_all add: checkRateLimit_def Let_def split_def)

lemma checkRateLimit_redis:
  assumes "isRedisConnected w"
  shows "checkRateLimit uid a w =
     (let key = rateLimitKey a uid;
          secs = \<lceil>real_of_int (windowMs (LIMITS a)) / 1000\<rceil>;
          (n, ttl) = (case redis_counter w key of
                        None \<Rightarrow> (1, Some secs)
                      | Some (c, ttl) \<Rightarrow> (c + 1, if c + 1 = 1 then Some secs else ttl))
      in (\<lparr>allowed = (n \<le> limit_max (LIMITS a)),
           remaining = max 0 (limit_max (LIMITS a) - n),
           resetIn = windowMs (LIMITS a), result_count = n\<rparr>,
          w\<lparr>redis_counter := (redis_counter w)(key \<mapsto> (n, ttl))\<rparr>))"
proof -
  have o: "redisOpen w" using assms by (simp add: isRedisConnected_def)
  have p: "0 < \<lceil>real_of_int (windowMs (LIMITS a)) / 1000\<rceil>" by (simp add: windowSeconds_LIMITS)
  show ?thesis
  proof (cases "redis_counter w (rateLimitKey a uid)")
    case None
    then show ?thesis using assms
      by (simp add: checkRateLimit_def Let_def incrementWithExpiry_open[OF o p])
  next
    case (Some q)
    obtain c ttl where q: "q = (c, ttl)" by (cases q)
    show ?thesis using assms Some q
      by (simp add: checkRateLimit_def Let_def incrementWithExpiry_open[OF o p])
  qed
qed

lemma checkRateLimit_local:
  assumes "\<not> isRedisConnected w"
  shows "checkRateLimit uid a w =
     (let key = rateLimitKey a uid;
          b' = (case localBuckets w key of
                  None \<Rightarrow> \<lparr>bucket_count = 1, resetAt = clock w 0 + windowMs (LIMITS a)\<rparr>
                | Some b \<Rightarrow>
                    if clock w 0 > resetAt b
                    then \<lparr>bucket_count = 1, resetAt = clock w 0 + windowMs (LIMITS a)\<rparr>
                    else b\<lparr>bucket_count := bucket_count b + 1\<rparr>);
          n = bucket_count b'
      in (\<lparr>allowed = (n \<le> limit_max (LIMITS a)),
           remaining = max 0 (limit_max (LIMITS a) - n),
           resetIn = windowMs (LIMITS a), result_count = n\<rparr>,
          (advance 1 w)\<lparr>localBuckets := (localBuckets w)(key \<mapsto> b')\<rparr>))"
proof (cases "localBuckets w (rateLimitKey a uid)")
  case None
  then show ?thesis using assms
    by (simp add: checkRateLimit_def Let_def incrementLocalBucket_eq)
next
  case (Some b)
  then show ?thesis using assms
    by (cases "clock w 0 > resetAt b")
       (simp_all add: checkRateLimit_def Let_def incrementLocalBucket_eq)
qed

lemma checkRateLimit_redis_counter:
  assumes "isRedisConnected w"
  shows "case redis_counter w (rateLimitKey a uid) of
            None \<Rightarrow> result_count (fst (checkRateLimit uid a w)) = 1
                     \<and> redis_counter (snd (checkRateLimit uid a w)) (rateLimitKey a uid)
                         = Some (1, Some \<lceil>real_of_int (windowMs (LIMITS a)) / 1000\<rceil>)
          | Some (c, ttl) \<Rightarrow> result_count (fst (checkRateLimit uid a w)) = c + 1
                     \<and> redis_counter (snd (checkRateLimit uid a w)) (rateLimitKey a uid)
                         = Some (c + 1, if c + 1 = 1 then Some \<lceil>real_of_int (windowMs (LIMITS a)) / 1000\<rceil> else ttl)"
proof (cases "redis_counter w (rateLimitKey a uid)")
  case None
  then show ?thesis by (simp add: checkRateLimit_redis[OF assms] Let_def)
next
  case (Some q)
  obtain c ttl where q: "q = (c, ttl)" by (cases q)
  show ?thesis using Some q by (simp add: checkRateLimit_redis[OF assms] Let_def)
qed

lemma checkRateLimit_local_bucket:
  assumes "\<not> isRedisConnected w"
  shows "case localBuckets w (rateLimitKey a uid) of
            None \<Rightarrow> result_count (fst (checkRateLimit uid a w)) = 1
                     \<and> localBuckets (snd (checkRateLimit uid a w)) (rateLimitKey a uid)
                         = Some \<lparr>bucket_count = 1, resetAt = clock w 0 + windowMs (LIMITS a)\<rparr>
          | Some b \<Rightarrow>
              if clock w 0 > resetAt b
              then result_count (fst (checkRateLimit uid a w)) = 1
                     \<and> localBuckets (snd (checkRateLimit uid a w)) (rateLimitKey a uid)
                         = Some \<lparr>bucket_count = 1, resetAt = clock w 0 + windowMs (LIMITS a)\<rparr>
              else result_count (fst (checkRateLimit uid a w)) = bucket_count b + 1
                     \<and> localBuckets (snd (checkRateLimit uid a w)) (rateLimitKey a uid)
                         = Some (b\<lparr>bucket_count := bucket_count b + 1\<rparr>)"
proof (cases "localBuckets w (rateLimitKey a uid)")
  case None
  then show ?thesis by (simp add: checkRateLimit_local[OF assms] Let_def)
next
  case (Some b)
  then show ?thesis by (simp add: checkRateLimit_local[OF assms] Let_def)
qed

text \<open>
  Claim C4. For every user id and every action, with the limits cursor 20 per 1 s, reaction
  5 per 1 s, sync 10 per 1 s, message 30 per 1 s, roomJoin 5 per 10 s and videoControl 10 per
  1 s, \<^verbatim>\<open>checkRateLimit\<close> increments the fixed-window counter of the key made of the
  action and the user id. In cluster mode the counter is the Redis key: a missing key
  becomes 1 with a time to live of \<open>\<lceil>windowMs / 1000\<rceil>\<close> seconds, an existing one is
  incremented and keeps its time to live. In standalone mode the counter is the local
  bucket: a missing or expired bucket becomes 1 with \<open>resetAt = now + windowMs\<close>, which is
  the same window since \<open>\<lceil>windowMs / 1000\<rceil> * 1000 = windowMs\<close> for every action; a live
  one is incremented. The call reports \<open>allowed\<close> if and only if the count after the
  increment is at most the maximum of the action, and \<open>resetIn\<close>, which the hub forwards
  as \<open>retryIn\<close>, is always the \<open>windowMs\<close> of the action.
\<close>

theorem C4_checkRateLimit:
  "let cfg = LIMITS action;
       key = rateLimitKey action uid;
       windowSeconds = \<lceil>real_of_int (windowMs cfg) / 1000\<rceil>;
       res = fst (checkRateLimit uid action w);
       w' = snd (checkRateLimit uid action w)
   in (limit_max cfg, windowMs cfg) =
        (case action of Cursor \<Rightarrow> (20, 1000) | Reaction \<Rightarrow> (5, 1000) | Sync \<Rightarrow> (10, 1000)
         | Message \<Rightarrow> (30, 1000) | RoomJoin \<Rightarrow> (5, 10000) | VideoControl \<Rightarrow> (10, 1000))
      \<and> key = ''ratelimit:'' @ action_name action @ '':'' @ uid
      \<and> (isRedisConnected w \<longrightarrow>
            (case redis_counter w key of
               None \<Rightarrow> result_count res = 1 \<and> redis_counter w' key = Some (1, Some windowSeconds)
             | Some (c, ttl) \<Rightarrow>
                 result_count res = c + 1
                 \<and> redis_counter w' key = Some (c + 1, if c + 1 = 1 then Some windowSeconds else ttl)))
      \<and> (\<not> isRedisConnected w \<longrightarrow>
            (case localBuckets w key of
               None \<Rightarrow>
                 result_count res = 1
                 \<and> localBuckets w' key = Some \<lparr>bucket_count = 1, resetAt = clock w 0 + windowMs cfg\<rparr>
             | Some b \<Rightarrow>
                 if clock w 0 > resetAt b
                 then result_count res = 1
                      \<and> localBuckets w' key
                          = Some \<lparr>bucket_count = 1, resetAt = clock w 0 + windowMs cfg\<rparr>
                 else result_count res = bucket_count b + 1
                      \<and> localBuckets w' key = Some (b\<lparr>bucket_count := bucket_count b + 1\<rparr>)))
      \<and> windowSeconds * 1000 = windowMs cfg
      \<and> (allowed res \<longleftrightarrow> result_count res \<le> limit_max cfg)
      \<and> resetIn res = windowMs cfg"
  unfolding Let_def
  apply (intro conjI impI)
  subgoal by (rule LIMITS_table)
  subgoal by (simp add: rateLimitKey_def)
  subgoal by (rule checkRateLimit_redis_counter)
  subgoal by (rule checkRateLimit_local_bucket)
  subgoal by (rule windowSeconds_ms)
  subgoal by (rule checkRateLimit_result(1))
  subgoal by (rule checkRateLimit_result(2))
  done

theorem C4_checkRateLimit_witness:
  "isRedisConnected (empty_world (clock_from 1000) True)
   \<and> redis_counter (snd (checkRateLimit ''user_k3j9x2a'' Reaction (empty_world (clock_from 1000) True)))
        ''ratelimit:reaction:user_k3j9x2a'' = Some (1, Some 1)
   \<and> allowed (fst (checkRateLimit ''user_k3j9x2a'' Reaction (empty_world (clock_from 1000) True)))
   \<and> \<not> isRedisConnected (empty_world (clock_from 1000) False)
   \<and> localBuckets (snd (checkRateLimit ''user_k3j9x2a'' RoomJoin (empty_world (clock_from 1000) False)))
        ''ratelimit:roomJoin:user_k3j9x2a'' = Some \<lparr>bucket_count = 1, resetAt = 11000\<rparr>
   \<and> resetIn (fst (checkRateLimit ''user_k3j9x2a'' RoomJoin (empty_world (clock_from 1000) False))) = 10000"
  using C4_checkRateLimit[where action = Reaction and uid = "''user_k3j9x2a''"
                               and w = "empty_world (clock_from 1000) True"]
        C4_checkRateLimit[where action = RoomJoin and uid = "''user_k3j9x2a''"
                               and w = "empty_world (clock_from 1000) False"]
  by (simp add: Let_def rateLimitKey_def clock_from_def)

section \<open>Connection admission\<close>

lemma checkConnectionLimit_eq:
  "checkConnectionLimit ip m w =
     (if int (length (recentAttempts (clock w 0) (storedAttempts ip w)))
           \<ge> (case m of None \<Rightarrow> 10 | Some k \<Rightarrow> k)
      then (False, advance 1 w)
      else (True, (advance 1 w)\<lparr>connectionAttempts :=
                     (connectionAttempts w)(connKey ip \<mapsto>
                        recentAttempts (clock w 0) (storedAttempts ip w) @ [clock w 0])\<rparr>))"
  by (simp add: checkConnectionLimit_def Date_now_advance Let_def storedAttempts_def)

lemma checkConnectionLimit_denied:
  "\<not> fst (checkConnectionLimit ip m w) \<Longrightarrow> snd (checkConnectionLimit ip m w) = advance 1 w"
  by (cases "int (length (recentAttempts (clock w 0) (storedAttempts ip w)))
               \<ge> (case m of None \<Rightarrow> 10 | Some k \<Rightarrow> k)")
     (simp_all add: checkConnectionLimit_eq)

lemma checkConnectionLimit_admitted:
  "fst (checkConnectionLimit ip m w) \<Longrightarrow>
     connectionAttempts (snd (checkConnectionLimit ip m w)) =
       (connectionAttempts w)(connKey ip \<mapsto>
          recentAttempts (clock w 0) (storedAttempts ip w) @ [clock w 0])"
  by (cases "int (length (recentAttempts (clock w 0) (storedAttempts ip w)))
               \<ge> (case m of None \<Rightarrow> 10 | Some k \<Rightarrow> k)")
     (simp_all add: checkConnectionLimit_eq)

lemma checkConnectionLimit_iff:
  "fst (checkConnectionLimit ip m w) \<longleftrightarrow>
     int (length (recentAttempts (clock w 0) (storedAttempts ip w)))
       < (case m of None \<Rightarrow> 10 | Some k \<Rightarrow> k)"
  by (simp add: checkConnectionLimit_eq)

lemma repeat_denied:
  "\<forall>b \<in> set (fst (checkConnectionLimit_repeat k ip m w)). \<not> b \<Longrightarrow>
     snd (checkConnectionLimit_repeat k ip m w) = advance k w"
proof (induction k arbitrary: w)
  case 0 then show ?case by simp
next
  case (Suc k)
  obtain r w1 where c: "checkConnectionLimit ip m w = (r, w1)" by (cases "checkConnectionLimit ip m w")
  obtain rs w2 where d: "checkConnectionLimit_repeat k ip m w1 = (rs, w2)"
    by (cases "checkConnectionLimit_repeat k ip m w1")
  have e: "checkConnectionLimit_repeat (Suc k) ip m w = (r # rs, w2)" by (simp add: c d)
  from Suc.prems have nr: "\<not> r" and nrs: "\<forall>b \<in> set rs. \<not> b" unfolding e by auto
  from nr c have w1: "w1 = advance 1 w" using checkConnectionLimit_denied[of ip m w] by simp
  from Suc.IH[of w1] nrs have "w2 = advance k w1" unfolding d by simp
  then have "w2 = advance (Suc k) w" unfolding w1 by simp
  then show ?case unfolding e by simp
qed

lemma storedAttempts_advance [simp]: "storedAttempts ip (advance k w) = storedAttempts ip w"
  by (simp add: storedAttempts_def)

lemma crowded_denied: "\<not> fst (checkConnectionLimit ''203.0.113.7'' None crowded_world)"
  by (simp add: checkConnectionLimit_iff crowded_world_def storedAttempts_def recentAttempts_def
        clock_from_def)

lemma crowded_repeat:
  "fst (checkConnectionLimit_repeat 2 ''203.0.113.7'' None crowded_world) = [False, False]"
  by (simp add: eval_nat_numeral checkConnectionLimit_eq crowded_world_def storedAttempts_def
        recentAttempts_def clock_from_def split_def Let_def)

text \<open>
  Claim C7, as amended. \<^verbatim>\<open>checkConnectionLimit\<close> admits a connection if and only if the
  number of attempts recorded for the address within the last 60 seconds (those with
  \<open>now - t < 60000\<close>) is strictly less than the threshold. The threshold is the second
  argument; when the caller leaves it out it is 10. The connection handler of the hub
  passes 20.
\<close>

theorem C7_checkConnectionLimit:
  "(fst (checkConnectionLimit ip (Some m) w) \<longleftrightarrow>
      int (length (filter (\<lambda>t. clock w 0 - t < 60000) (storedAttempts ip w))) < m)
   \<and> (fst (checkConnectionLimit ip None w) \<longleftrightarrow>
      int (length (filter (\<lambda>t. clock w 0 - t < 60000) (storedAttempts ip w))) < 10)
   \<and> (fst (connection_admission ip w) \<longleftrightarrow>
      int (length (filter (\<lambda>t. clock w 0 - t < 60000) (storedAttempts ip w))) < 20)"
  by (simp add: checkConnectionLimit_iff connection_admission_def recentAttempts_def)

text \<open>
  The claim as it was stated gives 20 as the default threshold. With ten attempts in the
  last ten seconds, which is less than 20, the call without a threshold refuses.
\<close>

theorem C7_default_counterexample:
  "\<not> (fst (checkConnectionLimit ''203.0.113.7'' None crowded_world) \<longleftrightarrow>
        int (length (recentAttempts (clock crowded_world 0)
                       (storedAttempts ''203.0.113.7'' crowded_world))) < 20)"
  by (simp add: checkConnectionLimit_iff crowded_world_def storedAttempts_def recentAttempts_def
        clock_from_def)

text \<open>
  Claim C10. A call of \<^verbatim>\<open>checkConnectionLimit\<close> that refuses changes nothing but the
  reading of the clock: the attempts recorded for the address stay as they were, the
  filtered list is not written back. Only an admitted call stores the recent attempts
  followed by the time of the call. Hence after any number of refused calls in a row the
  recorded attempts are those from before, and the next call at time \<open>clock w k\<close> is
  admitted as soon as fewer than the threshold of the attempts recorded before are within
  60 seconds of it.
\<close>

theorem C10_denial_keeps_history:
  "(\<not> fst (checkConnectionLimit ip m w) \<longrightarrow>
      snd (checkConnectionLimit ip m w) = advance 1 w
      \<and> connectionAttempts (snd (checkConnectionLimit ip m w)) = connectionAttempts w)
   \<and> (fst (checkConnectionLimit ip m w) \<longrightarrow>
      connectionAttempts (snd (checkConnectionLimit ip m w)) =
        (connectionAttempts w)(connKey ip \<mapsto>
           filter (\<lambda>t. clock w 0 - t < 60000) (storedAttempts ip w) @ [clock w 0]))
   \<and> ((\<forall>b \<in> set (fst (checkConnectionLimit_repeat k ip m w)). \<not> b) \<longrightarrow>
      connectionAttempts (snd (checkConnectionLimit_repeat k ip m w)) = connectionAttempts w
      \<and> (fst (checkConnectionLimit ip m (snd (checkConnectionLimit_repeat k ip m w))) \<longleftrightarrow>
           int (length (filter (\<lambda>t. clock w k - t < 60000) (storedAttempts ip w)))
             < (case m of None \<Rightarrow> 10 | Some n \<Rightarrow> n)))"
proof (intro conjI impI)
  assume d: "\<not> fst (checkConnectionLimit ip m w)"
  then show "snd (checkConnectionLimit ip m w) = advance 1 w"
    by (rule checkConnectionLimit_denied)
  then show "connectionAttempts (snd (checkConnectionLimit ip m w)) = connectionAttempts w"
    by simp
next
  assume "fst (checkConnectionLimit ip m w)"
  then show "connectionAttempts (snd (checkConnectionLimit ip m w)) =
        (connectionAttempts w)(connKey ip \<mapsto>
           filter (\<lambda>t. clock w 0 - t < 60000) (storedAttempts ip w) @ [clock w 0])"
    using checkConnectionLimit_admitted[of ip m w] by (simp add: recentAttempts_def)
next
  assume a: "\<forall>b \<in> set (fst (checkConnectionLimit_repeat k ip m w)). \<not> b"
  then have e: "snd (checkConnectionLimit_repeat k ip m w) = advance k w" by (rule repeat_denied)
  show "connectionAttempts (snd (checkConnectionLimit_repeat k ip m w)) = connectionAttempts w"
    by (simp add: e)
  show "fst (checkConnectionLimit ip m (snd (checkConnectionLimit_repeat k ip m w))) \<longleftrightarrow>
           int (length (filter (\<lambda>t. clock w k - t < 60000) (storedAttempts ip w)))
             < (case m of None \<Rightarrow> 10 | Some n \<Rightarrow> n)"
    by (simp add: e checkConnectionLimit_iff recentAttempts_def)
qed

theorem C10_denial_keeps_history_witness:
  "\<not> fst (checkConnectionLimit ''203.0.113.7'' None crowded_world)
   \<and> connectionAttempts (snd (checkConnectionLimit ''203.0.113.7'' None crowded_world))
       = connectionAttempts crowded_world
   \<and> fst (checkConnectionLimit ''203.0.113.7'' (Some 20) crowded_world)
   \<and> connectionAttempts (snd (checkConnectionLimit ''203.0.113.7'' (Some 20) crowded_world))
        (connKey ''203.0.113.7'')
       = Some [50000, 51000, 52000, 53000, 54000, 55000, 56000, 57000, 58000, 59000, 60000]
   \<and> fst (checkConnectionLimit_repeat 2 ''203.0.113.7'' None crowded_world) = [False, False]
   \<and> connectionAttempts (snd (checkConnectionLimit_repeat 2 ''203.0.113.7'' None crowded_world))
       = connectionAttempts crowded_world"
  using C10_denial_keeps_history[of "''203.0.113.7''" None crowded_world 2]
        C10_denial_keeps_history[of "''203.0.113.7''" "Some 20" crowded_world 0]
        crowded_denied crowded_repeat
  by (simp add: checkConnectionLimit_iff crowded_world_def storedAttempts_def recentAttempts_def
        clock_from_def)

section \<open>Time exchange endpoint\<close>

lemma POST_unparseable: "POST None w = (Json400 ''Invalid request body'', advance 1 w)"
  by (simp add: POST_def Date_now_advance)

lemma POST_null: "POST (Some JNull) w = (Json400 ''Invalid request body'', advance 1 w)"
  by (simp add: POST_def Date_now_advance)

lemma POST_value:
  "body \<noteq> JNull \<Longrightarrow>
   POST (Some body) w =
     (Json200 \<lparr>clientSendTime = map_option JSON_stringify (sent_clientSendTime body),
               serverReceiveTime = clock w 0, serverSendTime = clock w 1,
               serverProcessingTime = clock w 1 - clock w 0\<rparr>, advance 2 w)"
  by (cases body)
     (simp_all add: POST_def Date_now_advance eval_nat_numeral sent_clientSendTime_def)

lemma fmmap_unchanged: "(\<And>v. v \<in> fmran' m \<Longrightarrow> f v = v) \<Longrightarrow> fmmap f m = m"
proof (rule fmap_ext)
  fix k assume a: "\<And>v. v \<in> fmran' m \<Longrightarrow> f v = v"
  show "fmlookup (fmmap f m) k = fmlookup m k"
  proof (cases "fmlookup m k")
    case None
    then show ?thesis by simp
  next
    case (Some v)
    then have "v \<in> fmran' m" by (rule fmran'I)
    with a Some show ?thesis by simp
  qed
qed

text \<open>A value all of whose numbers are finite is written as it is.\<close>

lemma JSON_stringify_finite: "finite_numbers v \<Longrightarrow> JSON_stringify v = v"
proof (induction v)
  case (JNum n)
  then show ?case by (auto simp add: finite_numbers_def)
next
  case (JArr vs)
  have "\<And>v. v \<in> set vs \<Longrightarrow> JSON_stringify v = v"
    using JArr by (auto simp add: finite_numbers_def)
  then show ?case by (simp add: map_idI)
next
  case (JObj m)
  have "\<And>v. v \<in> fmran' m \<Longrightarrow> JSON_stringify v = v"
  proof -
    fix v assume v: "v \<in> fmran' m"
    then have "numbers v \<subseteq> numbers (JObj m)" by (auto simp add: fmran'_alt_def fmran'I)
    then have "finite_numbers v" using JObj.prems by (auto simp add: finite_numbers_def)
    with JObj.IH v show "JSON_stringify v = v" by blast
  qed
  then show ?case by (simp add: fmmap_unchanged)
qed simp_all

text \<open>
  Claim C8, as amended. For every POST request whose body parses to a JSON value other than
  \<^verbatim>\<open>null\<close>, and a clock that does not step back between the two readings, the answer is
  the time response with \<open>serverReceiveTime\<close> the reading at entry, \<open>serverSendTime\<close> the
  reading at exit, \<open>serverReceiveTime \<le> serverSendTime\<close>, and \<open>serverProcessingTime\<close> equal to
  \<open>serverSendTime - serverReceiveTime\<close>, which is not negative. Its \<open>clientSendTime\<close> is the
  one of the body as \<^verbatim>\<open>JSON.stringify\<close> writes it: echoed unchanged when all numbers in
  it are finite (a number beyond the range of the doubles is answered as \<^verbatim>\<open>null\<close>,
  negative zero as 0), and absent when the body has none.
\<close>

theorem C8_time_exchange:
  assumes "body \<noteq> JNull" and "clock w 0 \<le> clock w 1"
  shows "\<exists>r. fst (POST (Some body) w) = Json200 r
           \<and> serverReceiveTime r = clock w 0
           \<and> serverSendTime r = clock w 1
           \<and> serverReceiveTime r \<le> serverSendTime r
           \<and> clientSendTime r = map_option JSON_stringify (sent_clientSendTime body)
           \<and> (\<forall>v. sent_clientSendTime body = Some v \<and> finite_numbers v \<longrightarrow>
                  clientSendTime r = Some v)
           \<and> (sent_clientSendTime body = None \<longrightarrow> clientSendTime r = None)
           \<and> serverProcessingTime r = serverSendTime r - serverReceiveTime r
           \<and> 0 \<le> serverProcessingTime r"
  using assms by (simp add: POST_value JSON_stringify_finite)

theorem C8_time_exchange_witness:
  "JObj (fmap_of_list [(''clientSendTime'', JNum (Finite 1000))]) \<noteq> JNull
   \<and> clock (empty_world (clock_from 5000) False) 0 \<le> clock (empty_world (clock_from 5000) False) 1
   \<and> sent_clientSendTime (JObj (fmap_of_list [(''clientSendTime'', JNum (Finite 1000))]))
       = Some (JNum (Finite 1000))
   \<and> finite_numbers (JNum (Finite 1000))
   \<and> fst (POST (Some (JObj (fmap_of_list [(''clientSendTime'', JNum (Finite 1000))])))
             (empty_world (clock_from 5000) False))
       = Json200 \<lparr>clientSendTime = Some (JNum (Finite 1000)), serverReceiveTime = 5000,
                   serverSendTime = 5001, serverProcessingTime = 1\<rparr>
   \<and> JArr [] \<noteq> JNull
   \<and> sent_clientSendTime (JArr []) = None
   \<and> fst (POST (Some (JArr [])) (empty_world (clock_from 5000) False))
       = Json200 \<lparr>clientSendTime = None, serverReceiveTime = 5000,
                   serverSendTime = 5001, serverProcessingTime = 1\<rparr>"
  using C8_time_exchange[of "JObj (fmap_of_list [(''clientSendTime'', JNum (Finite 1000))])"
          "empty_world (clock_from 5000) False"]
        C8_time_exchange[of "JArr []" "empty_world (clock_from 5000) False"]
  by (auto simp add: clock_from_def sent_clientSendTime_def finite_numbers_def)

text \<open>
  The claim as it was stated covers every body that parses and has every
  \<open>clientSendTime\<close> echoed. The body \<^verbatim>\<open>null\<close> parses, the destructuring of it throws, and
  the answer is the 400 error, not a time response. The body
  \<^verbatim>\<open>{"clientSendTime": 1e400}\<close> parses, to an infinity, and is answered with
  \<open>clientSendTime\<close> \<^verbatim>\<open>null\<close>.
\<close>

theorem C8_body_counterexample:
  "fst (POST (Some JNull) (empty_world (clock_from 5000) False)) = Json400 ''Invalid request body''
   \<and> fst (POST (Some JNull) (empty_world (clock_from 5000) False))
       \<noteq> Json200 \<lparr>clientSendTime = None, serverReceiveTime = 5000, serverSendTime = 5001,
                    serverProcessingTime = 1\<rparr>
   \<and> fst (POST (Some (JObj (fmap_of_list [(''clientSendTime'', JNum PosInfinity)])))
             (empty_world (clock_from 5000) False))
       = Json200 \<lparr>clientSendTime = Some JNull, serverReceiveTime = 5000,
                   serverSendTime = 5001, serverProcessingTime = 1\<rparr>
   \<and> Some JNull \<noteq> sent_clientSendTime (JObj (fmap_of_list [(''clientSendTime'', JNum PosInfinity)]))"
  by (simp add: POST_null POST_value sent_clientSendTime_def clock_from_def)

section \<open>Double arithmetic\<close>

text \<open>The equations by which the rounding of a given number is computed.\<close>

lemmas double_eval = to_double_def binade_def round_in_binade_def pow2_def rne_def Let_def
  halvings.simps doublings.simps js_add_def js_div_def

text \<open>
  The definition gives the doubles that the literals are known to denote: a tenth is
  \<open>3602879701896397 / 2 ^ 55\<close>, and the sum of the doubles of 595.9 and of 0.1, which lies
  below 596, is rounded to 596.
\<close>

lemma to_double_tenth: "to_double (1 / 10) = 3602879701896397 / 36028797018963968"
  by (simp add: double_eval)

lemma to_double_595_9: "to_double 595.9 = double_595_9"
  by (simp add: double_eval double_595_9_def)

lemma js_add_rounds_up:
  "double_595_9 + to_double (1 / 10) < 596" "js_add double_595_9 (js_div 100 1000) = 596"
  by (simp_all add: double_eval double_595_9_def)

lemma js_div_second: "js_div 1000 1000 = 1"
  by (simp add: double_eval)

lemma js_add_eleven: "js_add 10 1 = 11"
  by (simp add: double_eval)









section \<open>Video state\<close>

lemma storedVideoState_advance [simp]: "storedVideoState r (advance k w) = storedVideoState r w"
  by (simp add: storedVideoState_def getJSON_Video_def)

lemma reads_advance [simp]: "reads r (advance k w) = reads r w"
  by (simp add: reads_def)

lemma getDefaultVideoState_eq:
  "getDefaultVideoState w =
     (\<lparr>isPlaying = False, currentTime = 0, duration = 596,
       serverTimestamp = clock w 0, lastUpdateTime = clock w 1\<rparr>, advance 2 w)"
  by (simp add: getDefaultVideoState_def Date_now_advance eval_nat_numeral)

lemma getVideoState_stored: "storedVideoState r w = Some s \<Longrightarrow> getVideoState r w = (s, w)"
  by (simp add: getVideoState_def)


lemma snd_getVideoState: "snd (getVideoState r w) = advance (reads r w) w"
  by (cases "storedVideoState r w") (simp_all add: getVideoState_def reads_def getDefaultVideoState_eq)

lemma getVideoState_pair: "getVideoState r w = (fst (getVideoState r w), advance (reads r w) w)"
  using snd_getVideoState[of r w] by (cases "getVideoState r w") simp

lemma getVideoState_advance: "fst (getVideoState r (advance k w)) =
   (case storedVideoState r w of Some s \<Rightarrow> s
    | None \<Rightarrow> \<lparr>isPlaying = False, currentTime = 0, duration = 596,
       serverTimestamp = clock w k, lastUpdateTime = clock w (Suc k)\<rparr>)"
  by (cases "storedVideoState r w") (simp_all add: getVideoState_def getDefaultVideoState_eq)

lemma spread_whole [simp]: "spread cur (whole st) = st"
  by (simp add: spread_def whole_def)

lemma setVideoState_whole:
  "setVideoState r (whole st) w =
     (st\<lparr>serverTimestamp := clock w (reads r w)\<rparr>,
      persistVideo r (st\<lparr>serverTimestamp := clock w (reads r w)\<rparr>) (advance (reads r w + 1) w))"
proof -
  obtain cur where g: "getVideoState r w = (cur, advance (reads r w) w)"
    using getVideoState_pair[of r w] by blast
  show ?thesis
  proof (cases "isRedisConnected w")
    case True
    then have "redisOpen w" by (simp add: isRedisConnected_def)
    with True show ?thesis
      by (simp add: setVideoState_def g Date_now_advance persistVideo_def setWithExpiry_Video_def Let_def)
  next
    case False
    then show ?thesis
      by (simp add: setVideoState_def g Date_now_advance persistVideo_def Let_def)
  qed
qed

lemma KEYS_roomVideo_inj [simp]: "KEYS_roomVideo r = KEYS_roomVideo r' \<longleftrightarrow> r = r'"
  by (simp add: KEYS_roomVideo_def)

lemma stored_persist [simp]:
  "storedVideoState r' (persistVideo r v w) = (if r' = r then Some v else storedVideoState r' w)"
  by (simp add: storedVideoState_def persistVideo_def getJSON_Video_def isRedisConnected_def)

lemma reads_stored: "storedVideoState r w = Some s \<Longrightarrow> reads r w = 0"
  by (simp add: reads_def)

lemma updateVideoTime_eq:
  "updateVideoTime r w =
     (let st = fst (getVideoState r w); k = reads r w
      in if isPlaying st
         then (let now = clock w k;
                   t = min (js_add (currentTime st) (js_div (real_of_int (now - lastUpdateTime st)) 1000))
                         (duration st);
                   s' = st\<lparr>currentTime := (if t \<ge> duration st then 0 else t),
                           lastUpdateTime := now, serverTimestamp := clock w (k + 1)\<rparr>
               in (s', persistVideo r (s'\<lparr>serverTimestamp := clock w (2 * k + 2)\<rparr>)
                         (advance (2 * k + 3) w)))
         else (st\<lparr>serverTimestamp := clock w k\<rparr>,
               persistVideo r (st\<lparr>serverTimestamp := clock w (2 * k + 1)\<rparr>)
                 (advance (2 * k + 2) w)))"
proof -
  obtain st where g: "getVideoState r w = (st, advance (reads r w) w)"
    using getVideoState_pair[of r w] by blast
  show ?thesis
  proof (cases "isPlaying st")
    case True
    then show ?thesis
      by (cases st)
         (simp add: updateVideoTime_def g Date_now_advance setVideoState_whole Let_def
            eval_nat_numeral ac_simps)
  next
    case False
    then show ?thesis
      by (cases st)
         (simp add: updateVideoTime_def g Date_now_advance setVideoState_whole Let_def
            eval_nat_numeral ac_simps)
  qed
qed

lemma updateVideoTime_stored:
  assumes "storedVideoState r w = Some s"
  shows "updateVideoTime r w =
     (if isPlaying s
      then (let now = clock w 0;
                t = min (js_add (currentTime s) (js_div (real_of_int (now - lastUpdateTime s)) 1000))
                      (duration s);
                s' = s\<lparr>currentTime := (if t \<ge> duration s then 0 else t), lastUpdateTime := now,
                        serverTimestamp := clock w 1\<rparr>
            in (s', persistVideo r (s'\<lparr>serverTimestamp := clock w 2\<rparr>) (advance 3 w)))
      else (s\<lparr>serverTimestamp := clock w 0\<rparr>,
            persistVideo r (s\<lparr>serverTimestamp := clock w 1\<rparr>) (advance 2 w)))"
  using assms
  by (simp add: updateVideoTime_eq getVideoState_stored reads_stored Let_def eval_nat_numeral)

lemma video_world_stored [simp]: "storedVideoState ''lobby1'' (video_world conn s) = Some s"
  by (simp add: video_world_def storedVideoState_def getJSON_Video_def isRedisConnected_def)

lemma video_world_clock [simp]: "clock (video_world conn s) n = 2000 + int n"
  by (simp add: video_world_def clock_from_def)

lemma fst_getVideoState_stored: "storedVideoState r w = Some s \<Longrightarrow> fst (getVideoState r w) = s"
  by (simp add: getVideoState_stored)

lemma stored_after_update:
  "storedVideoState r (snd (updateVideoTime r' w)) =
     (if r = r' then Some ((fst (updateVideoTime r' w))
                             \<lparr>serverTimestamp := clock w (2 * reads r' w + (if isPlaying (fst (getVideoState r' w)) then 2 else 1))\<rparr>)
      else storedVideoState r w)"
  by (simp add: updateVideoTime_eq Let_def)

lemma paused_update:
  assumes "storedVideoState r w = Some (s\<lparr>serverTimestamp := ts\<rparr>)" "\<not> isPlaying s"
  shows "\<exists>ts'. storedVideoState r (snd (updateVideoTime r' w)) = Some (s\<lparr>serverTimestamp := ts'\<rparr>)"
proof (cases "r = r'")
  case True
  have "reads r w = 0" using assms(1) by (rule reads_stored)
  moreover have "fst (getVideoState r w) = s\<lparr>serverTimestamp := ts\<rparr>"
    using assms(1) by (rule fst_getVideoState_stored)
  ultimately have "storedVideoState r (snd (updateVideoTime r' w))
      = Some (s\<lparr>serverTimestamp := clock w 1\<rparr>)"
    using True assms(2) by (simp add: updateVideoTime_eq Let_def)
  then show ?thesis by blast
next
  case False
  then show ?thesis using assms(1) by (auto simp add: stored_after_update)
qed

lemma paused_tick_rooms:
  assumes "\<not> isPlaying s"
  shows "storedVideoState r w = Some (s\<lparr>serverTimestamp := ts\<rparr>) \<Longrightarrow>
     \<exists>ts'. storedVideoState r (snd (tick_rooms rooms w)) = Some (s\<lparr>serverTimestamp := ts'\<rparr>)"
proof (induction rooms arbitrary: w ts)
  case Nil
  then show ?case by auto
next
  case (Cons room rooms)
  obtain st w1 where u: "updateVideoTime (room_id room) w = (st, w1)"
    by (cases "updateVideoTime (room_id room) w")
  obtain em w2 where t: "tick_rooms rooms w1 = (em, w2)" by (cases "tick_rooms rooms w1")
  from paused_update[OF Cons.prems assms, of "room_id room"] u
  obtain ts1 where "storedVideoState r w1 = Some (s\<lparr>serverTimestamp := ts1\<rparr>)" by auto
  from Cons.IH[OF this] t
  obtain ts2 where "storedVideoState r w2 = Some (s\<lparr>serverTimestamp := ts2\<rparr>)" by auto
  then show ?case by (auto simp add: u t)
qed

text \<open>
  Claim C1, as amended. For every room and every video state \<open>s\<close> stored for it,
  \<^verbatim>\<open>updateVideoTime\<close> reads the clock up to three times. If \<open>s\<close> is playing, the first
  reading is \<open>now\<close>: the new \<open>currentTime\<close> is \<open>currentTime + (now - lastUpdateTime) / 1000\<close>,
  computed in doubles, clamped to \<open>duration\<close> and set back to 0 when it reaches \<open>duration\<close>,
  and \<open>lastUpdateTime\<close> becomes \<open>now\<close>. In all cases \<open>isPlaying\<close> and \<open>duration\<close> are kept,
  the returned state has the next reading of the clock as \<open>serverTimestamp\<close>, and the
  persisted state is the returned one with \<open>serverTimestamp\<close> replaced by the reading that
  \<^verbatim>\<open>setVideoState\<close> takes when it writes.
\<close>

theorem C1_updateVideoTime:
  assumes "storedVideoState roomId w = Some s"
  shows "let now = clock w 0;
             result = fst (updateVideoTime roomId w);
             w' = snd (updateVideoTime roomId w)
         in (isPlaying s \<longrightarrow>
               currentTime result =
                 (let t = min (js_add (currentTime s)
                                 (js_div (real_of_int (now - lastUpdateTime s)) 1000))
                              (duration s)
                  in if t \<ge> duration s then 0 else t)
               \<and> lastUpdateTime result = now
               \<and> serverTimestamp result = clock w 1
               \<and> storedVideoState roomId w' = Some (result\<lparr>serverTimestamp := clock w 2\<rparr>))
            \<and> (\<not> isPlaying s \<longrightarrow>
               currentTime result = currentTime s
               \<and> lastUpdateTime result = lastUpdateTime s
               \<and> serverTimestamp result = now
               \<and> storedVideoState roomId w' = Some (result\<lparr>serverTimestamp := clock w 1\<rparr>))
            \<and> isPlaying result = isPlaying s
            \<and> duration result = duration s"
  by (simp add: updateVideoTime_stored[OF assms] Let_def)

theorem C1_updateVideoTime_witness:
  "storedVideoState ''lobby1''
      (video_world False \<lparr>isPlaying = True, currentTime = 10, duration = 596,
                           serverTimestamp = 1000, lastUpdateTime = 1000\<rparr>)
     = Some \<lparr>isPlaying = True, currentTime = 10, duration = 596,
             serverTimestamp = 1000, lastUpdateTime = 1000\<rparr>
   \<and> storedVideoState ''lobby1''
        (snd (updateVideoTime ''lobby1''
           (video_world False \<lparr>isPlaying = True, currentTime = 10, duration = 596,
                                serverTimestamp = 1000, lastUpdateTime = 1000\<rparr>)))
     = Some \<lparr>isPlaying = True, currentTime = 11, duration = 596,
             serverTimestamp = 2002, lastUpdateTime = 2000\<rparr>
   \<and> storedVideoState ''lobby1''
        (snd (updateVideoTime ''lobby1''
           (video_world True \<lparr>isPlaying = True, currentTime = double_595_9, duration = 596,
                               serverTimestamp = 1900, lastUpdateTime = 1900\<rparr>)))
     = Some \<lparr>isPlaying = True, currentTime = 0, duration = 596,
             serverTimestamp = 2002, lastUpdateTime = 2000\<rparr>
   \<and> storedVideoState ''lobby1''
        (snd (updateVideoTime ''lobby1''
           (video_world True \<lparr>isPlaying = False, currentTime = 42, duration = 596,
                               serverTimestamp = 1000, lastUpdateTime = 1000\<rparr>)))
     = Some \<lparr>isPlaying = False, currentTime = 42, duration = 596,
             serverTimestamp = 2001, lastUpdateTime = 1000\<rparr>"
  using C1_updateVideoTime[of "''lobby1''"
          "video_world False \<lparr>isPlaying = True, currentTime = 10, duration = 596,
                               serverTimestamp = 1000, lastUpdateTime = 1000\<rparr>"
          "\<lparr>isPlaying = True, currentTime = 10, duration = 596,
            serverTimestamp = 1000, lastUpdateTime = 1000\<rparr>"]
        C1_updateVideoTime[of "''lobby1''"
          "video_world True \<lparr>isPlaying = True, currentTime = double_595_9, duration = 596,
                               serverTimestamp = 1900, lastUpdateTime = 1900\<rparr>"
          "\<lparr>isPlaying = True, currentTime = double_595_9, duration = 596,
            serverTimestamp = 1900, lastUpdateTime = 1900\<rparr>"]
        C1_updateVideoTime[of "''lobby1''"
          "video_world True \<lparr>isPlaying = False, currentTime = 42, duration = 596,
                               serverTimestamp = 1000, lastUpdateTime = 1000\<rparr>"
          "\<lparr>isPlaying = False, currentTime = 42, duration = 596,
            serverTimestamp = 1000, lastUpdateTime = 1000\<rparr>"]
  by (simp add: Let_def js_div_second js_add_eleven js_add_rounds_up)

text \<open>
  The claim as it was stated has one \<open>now\<close>, for \<open>lastUpdateTime\<close> and for
  \<open>serverTimestamp\<close>, and has the resulting state persisted. With a clock that gains a
  millisecond between the readings the returned state has \<open>lastUpdateTime\<close> 2000 and
  \<open>serverTimestamp\<close> 2001, and the state that is stored differs from it: its
  \<open>serverTimestamp\<close> is 2002.
\<close>

theorem C1_single_now_counterexample:
  "fst (updateVideoTime ''lobby1''
          (video_world False \<lparr>isPlaying = True, currentTime = 10, duration = 596,
                               serverTimestamp = 1000, lastUpdateTime = 1000\<rparr>))
     = \<lparr>isPlaying = True, currentTime = 11, duration = 596,
        serverTimestamp = 2001, lastUpdateTime = 2000\<rparr>
   \<and> storedVideoState ''lobby1''
        (snd (updateVideoTime ''lobby1''
           (video_world False \<lparr>isPlaying = True, currentTime = 10, duration = 596,
                                serverTimestamp = 1000, lastUpdateTime = 1000\<rparr>)))
     = Some \<lparr>isPlaying = True, currentTime = 11, duration = 596,
             serverTimestamp = 2002, lastUpdateTime = 2000\<rparr>
   \<and> storedVideoState ''lobby1''
        (snd (updateVideoTime ''lobby1''
           (video_world False \<lparr>isPlaying = True, currentTime = 10, duration = 596,
                                serverTimestamp = 1000, lastUpdateTime = 1000\<rparr>)))
     \<noteq> Some (fst (updateVideoTime ''lobby1''
           (video_world False \<lparr>isPlaying = True, currentTime = 10, duration = 596,
                                serverTimestamp = 1000, lastUpdateTime = 1000\<rparr>)))"
  by (simp add: updateVideoTime_stored Let_def js_div_second js_add_eleven)

text \<open>
  Claim C9. For a room whose stored video state is paused, \<^verbatim>\<open>updateVideoTime\<close> returns
  and persists the state with \<open>currentTime\<close>, \<open>duration\<close>, \<open>lastUpdateTime\<close> and \<open>isPlaying\<close>
  unchanged; only \<open>serverTimestamp\<close> is set, to the reading of the clock. The same holds
  after the periodic tick has gone over any list of rooms, any number of times: the position
  of the paused room does not drift.
\<close>

theorem C9_paused_frame:
  assumes "storedVideoState roomId w = Some s" and "\<not> isPlaying s"
  shows "fst (updateVideoTime roomId w) = s\<lparr>serverTimestamp := clock w 0\<rparr>
         \<and> storedVideoState roomId (snd (updateVideoTime roomId w))
              = Some (s\<lparr>serverTimestamp := clock w 1\<rparr>)
         \<and> (\<exists>ts. storedVideoState roomId (snd (tick_rooms rooms w))
                    = Some (s\<lparr>serverTimestamp := ts\<rparr>))"
proof -
  have "storedVideoState roomId w = Some (s\<lparr>serverTimestamp := serverTimestamp s\<rparr>)"
    using assms(1) by simp
  from paused_tick_rooms[OF assms(2) this]
  have "\<exists>ts. storedVideoState roomId (snd (tick_rooms rooms w)) = Some (s\<lparr>serverTimestamp := ts\<rparr>)" .
  then show ?thesis
    using assms(2) by (simp add: updateVideoTime_stored[OF assms(1)])
qed

theorem C9_paused_frame_witness:
  "storedVideoState ''lobby1''
      (video_world False \<lparr>isPlaying = False, currentTime = 42, duration = 596,
                           serverTimestamp = 1000, lastUpdateTime = 1000\<rparr>)
     = Some \<lparr>isPlaying = False, currentTime = 42, duration = 596,
             serverTimestamp = 1000, lastUpdateTime = 1000\<rparr>
   \<and> \<not> isPlaying \<lparr>isPlaying = False, currentTime = 42, duration = 596,
                    serverTimestamp = 1000, lastUpdateTime = 1000\<rparr>
   \<and> fst (updateVideoTime ''lobby1''
           (video_world False \<lparr>isPlaying = False, currentTime = 42, duration = 596,
                                serverTimestamp = 1000, lastUpdateTime = 1000\<rparr>))
     = \<lparr>isPlaying = False, currentTime = 42, duration = 596,
        serverTimestamp = 2000, lastUpdateTime = 1000\<rparr>
   \<and> storedVideoState ''lobby1''
        (snd (updateVideoTime ''lobby1''
           (video_world False \<lparr>isPlaying = False, currentTime = 42, duration = 596,
                                serverTimestamp = 1000, lastUpdateTime = 1000\<rparr>)))
     = Some \<lparr>isPlaying = False, currentTime = 42, duration = 596,
             serverTimestamp = 2001, lastUpdateTime = 1000\<rparr>"
  using C9_paused_frame[of "''lobby1''"
          "video_world False \<lparr>isPlaying = False, currentTime = 42, duration = 596,
                               serverTimestamp = 1000, lastUpdateTime = 1000\<rparr>"
          "\<lparr>isPlaying = False, currentTime = 42, duration = 596,
            serverTimestamp = 1000, lastUpdateTime = 1000\<rparr>" "[]"]
  by simp

section \<open>Rooms\<close>

lemma createRoom_local:
  "\<not> isRedisConnected w \<Longrightarrow>
   createRoom r c opts w =
     (let room = \<lparr>room_id = r,
                  room_name = (case opt_name opts of None \<Rightarrow> ''Room '' @ r
                               | Some n \<Rightarrow> if n = [] then ''Room '' @ r else n),
                  createdBy = c, createdAt = clock w 0,
                  maxUsers = (case opt_maxUsers opts of None \<Rightarrow> 10000
                              | Some m \<Rightarrow> if m = 0 then 10000 else m),
                  isPublic = (opt_isPublic opts \<noteq> Some False)\<rparr>
      in (room, (advance 1 w)\<lparr>localRooms := AList.update r room (localRooms w)\<rparr>))"
  by (simp add: createRoom_def Date_now_advance Let_def)

lemma createRoom_redis:
  "isRedisConnected w \<Longrightarrow>
   createRoom r c opts w =
     (let room = \<lparr>room_id = r,
                  room_name = (case opt_name opts of None \<Rightarrow> ''Room '' @ r
                               | Some n \<Rightarrow> if n = [] then ''Room '' @ r else n),
                  createdBy = c, createdAt = clock w 0,
                  maxUsers = (case opt_maxUsers opts of None \<Rightarrow> 10000
                              | Some m \<Rightarrow> if m = 0 then 10000 else m),
                  isPublic = (opt_isPublic opts \<noteq> Some False)\<rparr>
      in (room, (advance 1 w)\<lparr>redis_hashRoom := redis_hSet KEYS_allRooms r room (redis_hashRoom w),
                                redis_strRoom := (redis_strRoom w)(KEYS_roomMeta r \<mapsto> (room, ROOM_TTL))\<rparr>))"
  by (simp add: createRoom_def Date_now_advance Let_def setWithExpiry_Room_def isRedisConnected_def
        advance_def)

lemma twice_created_local:
  "twice_created False =
     (empty_world (\<lambda>n. 1002 + int n) False)
       \<lparr>localRooms := [(''r1'', \<lparr>room_id = ''r1'', room_name = ''Room r1'', createdBy = ''user_bob'',
                               createdAt = 1001, maxUsers = 10000, isPublic = True\<rparr>)]\<rparr>"
  by (simp add: twice_created_def createRoom_local Let_def no_options_def advance_def clock_from_def
        empty_world_def isRedisConnected_def)

lemma twice_created_redis:
  "twice_created True =
     (empty_world (\<lambda>n. 1002 + int n) True)
       \<lparr>redis_hashRoom := [KEYS_allRooms \<mapsto>
           ([(''r1'', \<lparr>room_id = ''r1'', room_name = ''Room r1'', createdBy = ''user_bob'',
                               createdAt = 1001, maxUsers = 10000, isPublic = True\<rparr>)], None)],
        redis_strRoom := [KEYS_roomMeta ''r1'' \<mapsto> (\<lparr>room_id = ''r1'', room_name = ''Room r1'', createdBy = ''user_bob'',
                               createdAt = 1001, maxUsers = 10000, isPublic = True\<rparr>, ROOM_TTL)]\<rparr>"
  by (simp add: twice_created_def createRoom_redis Let_def no_options_def advance_def clock_from_def
        empty_world_def isRedisConnected_def redis_hSet_def)

text \<open>
  Claim C2 says that of two calls of \<^verbatim>\<open>createRoom\<close> for the same room id the first
  writer wins. The function writes the room it has built without looking for an existing
  one: after \<^verbatim>\<open>createRoom("r1", "user_alice")\<close> at time 1000 and
  \<^verbatim>\<open>createRoom("r1", "user_bob")\<close> at time 1001 there is one room \<^verbatim>\<open>r1\<close>, and it is
  the one of the second call, in standalone mode and in cluster mode alike.
\<close>

theorem C2_createRoom_overwrites:
  "fst (createRoom ''r1'' ''user_alice'' no_options (empty_world (clock_from 1000) False))
     = \<lparr>room_id = ''r1'', room_name = ''Room r1'', createdBy = ''user_alice'',
        createdAt = 1000, maxUsers = 10000, isPublic = True\<rparr>
   \<and> getRoom ''r1'' (twice_created False)
     = Some \<lparr>room_id = ''r1'', room_name = ''Room r1'', createdBy = ''user_bob'',
             createdAt = 1001, maxUsers = 10000, isPublic = True\<rparr>
   \<and> getAllRooms (twice_created False)
     = [\<lparr>room_id = ''r1'', room_name = ''Room r1'', createdBy = ''user_bob'',
             createdAt = 1001, maxUsers = 10000, isPublic = True\<rparr>]
   \<and> getRoom ''r1'' (twice_created True)
     = Some \<lparr>room_id = ''r1'', room_name = ''Room r1'', createdBy = ''user_bob'',
             createdAt = 1001, maxUsers = 10000, isPublic = True\<rparr>
   \<and> getAllRooms (twice_created True)
     = [\<lparr>room_id = ''r1'', room_name = ''Room r1'', createdBy = ''user_bob'',
             createdAt = 1001, maxUsers = 10000, isPublic = True\<rparr>]"
  by (simp add: twice_created_local twice_created_redis getRoom_def getAllRooms_def
        isRedisConnected_def getJSON_Room_def redis_hGetAll_def createRoom_local Let_def
        no_options_def clock_from_def)

lemma hGetAll_hDel_notin: "r \<notin> fst ` set (redis_hGetAll key (redis_hDel key r t))"
proof (cases "t key")
  case None
  then show ?thesis by (simp add: redis_hGetAll_def redis_hDel_def)
next
  case (Some p)
  obtain h ttl where p: "p = (h, ttl)" by (cases p)
  show ?thesis
    using Some p AList.delete_notin_dom[of r h]
    by (simp add: redis_hGetAll_def redis_hDel_def Let_def)
qed

lemma hGetAll_hDel_subset: "set (redis_hGetAll key (redis_hDel key r t)) \<subseteq> set (redis_hGetAll key t)"
proof (cases "t key")
  case None
  then show ?thesis by (simp add: redis_hGetAll_def redis_hDel_def)
next
  case (Some p)
  obtain h ttl where p: "p = (h, ttl)" by (cases p)
  show ?thesis
    using Some p
    by (auto simp add: redis_hGetAll_def redis_hDel_def Let_def AList.delete_eq)
qed

lemma hGetAll_upd_None: "set (redis_hGetAll key (t(k := None))) \<subseteq> set (redis_hGetAll key t)"
  by (simp add: redis_hGetAll_def)

lemma deleteRoom_local:
  assumes "\<not> isRedisConnected w"
  shows "localRooms (deleteRoom r w) = AList.delete r (localRooms w)"
    "localRoomUsers (deleteRoom r w) = (localRoomUsers w)(r := None)"
    "localVideoStates (deleteRoom r w) = (localVideoStates w)(r := None)"
  using assms by (simp_all add: deleteRoom_def)

lemma deleteRoom_redis_fields:
  assumes "isRedisConnected w"
  shows "redis_strRoom (deleteRoom r w) (KEYS_roomMeta r) = None"
    "redis_hashUser (deleteRoom r w) (KEYS_roomUsers r) = None"
    "redis_strVideo (deleteRoom r w) (KEYS_roomVideo r) = None"
    "redis_hashCursor (deleteRoom r w) (KEYS_roomCursors r) = None"
    "set (redis_hGetAll KEYS_allRooms (redis_hashRoom (deleteRoom r w)))
       \<subseteq> set (redis_hGetAll KEYS_allRooms (redis_hDel KEYS_allRooms r (redis_hashRoom w)))"
    "isConnectedFlag (deleteRoom r w) = isConnectedFlag w"
    "redisOpen (deleteRoom r w) = redisOpen w"
    "clock (deleteRoom r w) = clock w"
  using assms
  by (simp_all add: deleteRoom_def redis_del_def redis_hDel_world_def Let_def redis_hGetAll_def)

lemma deleteRoom_flags [simp]:
  "isConnectedFlag (deleteRoom r w) = isConnectedFlag w"
  "redisOpen (deleteRoom r w) = redisOpen w"
  by (simp_all add: deleteRoom_def redis_del_def redis_hDel_world_def Let_def)

lemma deleteRoom_connected [simp]: "isRedisConnected (deleteRoom r w) = isRedisConnected w"
  by (simp add: isRedisConnected_def)

lemma deleteRoom_clock [simp]: "clock (deleteRoom r w) = clock w"
  by (simp add: deleteRoom_def redis_del_def redis_hDel_world_def Let_def)

lemma deleteRoom_getRoom: "getRoom r (deleteRoom r w) = None"
proof (cases "isRedisConnected w")
  case True
  then show ?thesis
    by (simp add: getRoom_def getJSON_Room_def deleteRoom_redis_fields)
next
  case False
  then show ?thesis
    by (simp add: getRoom_def deleteRoom_local AList.delete_conv')
qed

lemma deleteRoom_getRoomUsers: "getRoomUsers r (deleteRoom r w) = Map.empty"
proof (cases "isRedisConnected w")
  case True
  then show ?thesis
    by (simp add: getRoomUsers_def getHashAll_User_def deleteRoom_redis_fields redis_hGetAll_def)
next
  case False
  then show ?thesis
    by (simp add: getRoomUsers_def deleteRoom_local)
qed

lemma deleteRoom_getRoomUserCount: "getRoomUserCount r (deleteRoom r w) = 0"
proof (cases "isRedisConnected w")
  case True
  then show ?thesis
    by (simp add: getRoomUserCount_def redis_hLen_def deleteRoom_redis_fields redis_hGetAll_def)
next
  case False
  then show ?thesis
    by (simp add: getRoomUserCount_def deleteRoom_local)
qed

lemma deleteRoom_getRoomCursors: "getRoomCursors r (deleteRoom r w) = Map.empty"
proof (cases "isRedisConnected w")
  case True
  then show ?thesis
    by (simp add: getRoomCursors_def getHashAll_Cursor_def deleteRoom_redis_fields redis_hGetAll_def)
next
  case False
  then show ?thesis
    by (simp add: getRoomCursors_def)
qed

lemma deleteRoom_storedVideoState: "storedVideoState r (deleteRoom r w) = None"
proof (cases "isRedisConnected w")
  case True
  then show ?thesis
    by (simp add: storedVideoState_def getJSON_Video_def deleteRoom_redis_fields)
next
  case False
  then show ?thesis
    by (simp add: storedVideoState_def deleteRoom_local)
qed

lemma deleteRoom_listed: "r \<notin> set (listedRoomIds (deleteRoom r w))"
proof (cases "isRedisConnected w")
  case True
  have "fst ` set (redis_hGetAll KEYS_allRooms (redis_hashRoom (deleteRoom r w)))
          \<subseteq> fst ` set (redis_hGetAll KEYS_allRooms (redis_hDel KEYS_allRooms r (redis_hashRoom w)))"
    using deleteRoom_redis_fields(5)[OF True] by (rule image_mono)
  then show ?thesis
    using True hGetAll_hDel_notin[of r KEYS_allRooms "redis_hashRoom w"]
    by (auto simp add: listedRoomIds_def)
next
  case False
  then show ?thesis
    using AList.delete_notin_dom[of r "localRooms w"]
    by (simp add: listedRoomIds_def deleteRoom_local)
qed

lemma deleteRoom_getAllRooms:
  assumes "rooms_keyed w"
  shows "\<forall>room \<in> set (getAllRooms (deleteRoom r w)). room_id room \<noteq> r"
proof (cases "isRedisConnected w")
  case True
  let ?h = "redis_hGetAll KEYS_allRooms (redis_hashRoom (deleteRoom r w))"
  have sub: "set ?h \<subseteq> set (redis_hGetAll KEYS_allRooms (redis_hDel KEYS_allRooms r (redis_hashRoom w)))"
    using deleteRoom_redis_fields(5)[OF True] .
  have sub2: "set ?h \<subseteq> set (redis_hGetAll KEYS_allRooms (redis_hashRoom w))"
    using sub hGetAll_hDel_subset[of KEYS_allRooms r "redis_hashRoom w"] by blast
  have notin: "r \<notin> fst ` set ?h"
    using sub hGetAll_hDel_notin[of r KEYS_allRooms "redis_hashRoom w"] by blast
  show ?thesis
  proof
    fix room assume "room \<in> set (getAllRooms (deleteRoom r w))"
    then obtain k where kr: "(k, room) \<in> set ?h"
      using True by (auto simp add: getAllRooms_def)
    with sub2 assms have "room_id room = k" by (auto simp add: rooms_keyed_def)
    moreover from kr notin have "k \<noteq> r" by force
    ultimately show "room_id room \<noteq> r" by simp
  qed
next
  case False
  show ?thesis
  proof
    fix room assume "room \<in> set (getAllRooms (deleteRoom r w))"
    then obtain k where kr: "(k, room) \<in> set (AList.delete r (localRooms w))"
      using False by (auto simp add: getAllRooms_def deleteRoom_local)
    then have "(k, room) \<in> set (localRooms w)" and "k \<noteq> r"
      by (auto simp add: AList.delete_eq)
    with assms show "room_id room \<noteq> r" by (auto simp add: rooms_keyed_def)
  qed
qed

lemma two_rooms_local:
  "two_rooms False =
     (empty_world (\<lambda>n. 1003 + int n) False)
       \<lparr>localRooms := [(''r1'', \<lparr>room_id = ''r1'', room_name = ''Room r1'', createdBy = ''user_bob'',
                               createdAt = 1001, maxUsers = 10000, isPublic = True\<rparr>),
                       (''r2'', \<lparr>room_id = ''r2'', room_name = ''Room r2'', createdBy = ''user_carol'',
                               createdAt = 1002, maxUsers = 10000, isPublic = True\<rparr>)],
        localRoomUsers := [''r1'' \<mapsto> [(''user_alice'', alice)]]\<rparr>"
  by (simp add: two_rooms_def occupied_world_def twice_created_local addUserToRoom_def
        createRoom_local Let_def no_options_def advance_def isRedisConnected_def empty_world_def
        alice_def)

lemma two_rooms_redis:
  "two_rooms True =
     (empty_world (\<lambda>n. 1003 + int n) True)
       \<lparr>redis_hashRoom := [KEYS_allRooms \<mapsto>
           ([(''r1'', \<lparr>room_id = ''r1'', room_name = ''Room r1'', createdBy = ''user_bob'',
                               createdAt = 1001, maxUsers = 10000, isPublic = True\<rparr>),
             (''r2'', \<lparr>room_id = ''r2'', room_name = ''Room r2'', createdBy = ''user_carol'',
                               createdAt = 1002, maxUsers = 10000, isPublic = True\<rparr>)], None)],
        redis_strRoom := [KEYS_roomMeta ''r1'' \<mapsto> (\<lparr>room_id = ''r1'', room_name = ''Room r1'', createdBy = ''user_bob'',
                               createdAt = 1001, maxUsers = 10000, isPublic = True\<rparr>, ROOM_TTL),
                          KEYS_roomMeta ''r2'' \<mapsto> (\<lparr>room_id = ''r2'', room_name = ''Room r2'', createdBy = ''user_carol'',
                               createdAt = 1002, maxUsers = 10000, isPublic = True\<rparr>, ROOM_TTL)],
        redis_hashUser := [KEYS_roomUsers ''r1'' \<mapsto> ([(''user_alice'', alice)], Some ROOM_TTL)]\<rparr>"
  by (simp add: two_rooms_def occupied_world_def twice_created_redis addUserToRoom_def
        createRoom_redis Let_def no_options_def advance_def isRedisConnected_def empty_world_def
        setHash_User_def redis_hSet_def redis_expire_def ROOM_TTL_def KEYS_allRooms_def
        KEYS_roomMeta_def KEYS_roomUsers_def alice_def)

lemma two_rooms_keyed: "rooms_keyed (two_rooms True)" "rooms_keyed (two_rooms False)"
  by (simp_all add: rooms_keyed_def two_rooms_local two_rooms_redis redis_hGetAll_def)

text \<open>
  Claim C6. After \<^verbatim>\<open>deleteRoom\<close> for a room, in the world it leaves, \<^verbatim>\<open>getRoom\<close>
  returns nothing for the room, \<^verbatim>\<open>getRoomUsers\<close> and \<^verbatim>\<open>getRoomCursors\<close> return the
  empty mapping, no video state is stored for it, so that \<^verbatim>\<open>getVideoState\<close> gives the
  default state, and no entry of the enumeration of \<^verbatim>\<open>getAllRooms\<close> is filed under its
  id. Where every room is filed under its own id, as \<^verbatim>\<open>createRoom\<close> files it, no room of
  \<^verbatim>\<open>getAllRooms\<close> has the id.
\<close>

theorem C6_deleteRoom:
  "getRoom r (deleteRoom r w) = None
   \<and> getRoomUsers r (deleteRoom r w) = Map.empty
   \<and> getRoomCursors r (deleteRoom r w) = Map.empty
   \<and> storedVideoState r (deleteRoom r w) = None
   \<and> fst (getVideoState r (deleteRoom r w))
       = \<lparr>isPlaying = False, currentTime = 0, duration = 596,
          serverTimestamp = clock w 0, lastUpdateTime = clock w 1\<rparr>
   \<and> r \<notin> set (listedRoomIds (deleteRoom r w))
   \<and> (rooms_keyed w \<longrightarrow> (\<forall>room \<in> set (getAllRooms (deleteRoom r w)). room_id room \<noteq> r))"
  using deleteRoom_getAllRooms[of w r]
  by (simp add: deleteRoom_getRoom deleteRoom_getRoomUsers deleteRoom_getRoomCursors
        deleteRoom_storedVideoState deleteRoom_listed getVideoState_def getDefaultVideoState_def
        Date_now_advance)

theorem C6_deleteRoom_witness:
  "rooms_keyed (two_rooms True)
   \<and> getRoomUsers ''r1'' (two_rooms True) ''user_alice'' = Some alice
   \<and> getRoomUsers ''r1'' (deleteRoom ''r1'' (two_rooms True)) = Map.empty
   \<and> getRoom ''r1'' (deleteRoom ''r1'' (two_rooms True)) = None
   \<and> getAllRooms (deleteRoom ''r1'' (two_rooms True))
       = [\<lparr>room_id = ''r2'', room_name = ''Room r2'', createdBy = ''user_carol'',
            createdAt = 1002, maxUsers = 10000, isPublic = True\<rparr>]
   \<and> rooms_keyed (two_rooms False)
   \<and> getRoom ''r1'' (deleteRoom ''r1'' (two_rooms False)) = None
   \<and> getAllRooms (deleteRoom ''r1'' (two_rooms False))
       = [\<lparr>room_id = ''r2'', room_name = ''Room r2'', createdBy = ''user_carol'',
            createdAt = 1002, maxUsers = 10000, isPublic = True\<rparr>]"
  using C6_deleteRoom[of "''r1''" "two_rooms True"] C6_deleteRoom[of "''r1''" "two_rooms False"]
    two_rooms_keyed
  by (simp add: two_rooms_local two_rooms_redis getAllRooms_def getRoomUsers_def
        getHashAll_User_def redis_hGetAll_def deleteRoom_def redis_del_def redis_hDel_world_def
        redis_hDel_def Let_def isRedisConnected_def KEYS_allRooms_def KEYS_roomMeta_def
        KEYS_roomUsers_def KEYS_roomVideo_def KEYS_roomCursors_def)

section \<open>Cursor batching\<close>

lemma flush_fst:
  "fst (flushCursorBatches b) = map (\<lambda>(r, m). (r, map snd m)) (filter (\<lambda>(r, m). m \<noteq> []) b)"
  by (induction b rule: flushCursorBatches.induct) (simp_all add: split_def Let_def)

lemma flush_snd: "snd (flushCursorBatches b) = map (\<lambda>(r, m). (r, [])) b"
  by (induction b rule: flushCursorBatches.induct) (simp_all add: split_def Let_def)

lemma flush_keys: "map fst (snd (flushCursorBatches b)) = map fst b"
  by (simp add: flush_snd split_def comp_def)

lemma accumulator_flush [simp]: "accumulator r (snd (flushCursorBatches b)) = []"
proof (cases "map_of (snd (flushCursorBatches b)) r")
  case None
  then show ?thesis by (simp add: accumulator_def)
next
  case (Some m)
  then have "(r, m) \<in> set (snd (flushCursorBatches b))" by (rule map_of_SomeD)
  then have "m = []" by (auto simp add: flush_snd)
  with Some show ?thesis by (simp add: accumulator_def)
qed

lemma map_of_batchCursorUpdate:
  "map_of (batchCursorUpdate r c b) =
     (map_of b)(r \<mapsto> AList.update (userId c) c (accumulator r b))"
  by (cases "map_of b r")
     (simp_all add: batchCursorUpdate_def accumulator_def AList.map_of_map_entry AList.update_conv')

lemma accumulator_batchCursorUpdate:
  "accumulator r (batchCursorUpdate r' c b) =
     (if r = r' then AList.update (userId c) c (accumulator r b) else accumulator r b)"
  by (simp add: accumulator_def map_of_batchCursorUpdate)

lemma distinct_batchCursorUpdate:
  "distinct (map fst b) \<Longrightarrow> distinct (map fst (batchCursorUpdate r c b))"
  by (simp add: batchCursorUpdate_def AList.distinct_map_entry AList.distinct_update)

lemma dom_batchCursorUpdate:
  "map_of (batchCursorUpdate r' c b) r = None \<longleftrightarrow> r \<noteq> r' \<and> map_of b r = None"
  by (simp add: map_of_batchCursorUpdate)

lemma distinct_batchCursorUpdates:
  "distinct (map fst b) \<Longrightarrow> distinct (map fst (batchCursorUpdates calls b))"
  unfolding batchCursorUpdates_def
  by (induction calls arbitrary: b) (simp_all add: split_def distinct_batchCursorUpdate)

lemma accumulator_batchCursorUpdates:
  "accumulator r (batchCursorUpdates calls b) =
     foldl (\<lambda>m c. AList.update (userId c) c m) (accumulator r b)
       (map snd (filter (\<lambda>(r', c). r' = r) calls))"
  unfolding batchCursorUpdates_def
  by (induction calls arbitrary: b) (simp_all add: split_def accumulator_batchCursorUpdate)

lemma dom_batchCursorUpdates:
  "map_of (batchCursorUpdates calls b) r = None \<longleftrightarrow>
     filter (\<lambda>(r', c). r' = r) calls = [] \<and> map_of b r = None"
  unfolding batchCursorUpdates_def
  by (induction calls arbitrary: b) (auto simp add: split_def dom_batchCursorUpdate)

text \<open>Of several updates of one key the last one is the one found.\<close>

lemma map_of_foldl_update:
  "map_of (foldl (\<lambda>m c. AList.update (userId c) c m) m0 cs) u =
     (case filter (\<lambda>c. userId c = u) cs of [] \<Rightarrow> map_of m0 u | x # xs \<Rightarrow> Some (last (x # xs)))"
proof (induction cs arbitrary: m0)
  case Nil
  then show ?case by simp
next
  case (Cons c cs)
  show ?case
    by (cases "filter (\<lambda>c. userId c = u) cs")
       (auto simp add: Cons.IH AList.update_conv')
qed

lemma distinct_foldl_update:
  "distinct (map fst m0) \<Longrightarrow> distinct (map fst (foldl (\<lambda>m c. AList.update (userId c) c m) m0 cs))"
  by (induction cs arbitrary: m0) (simp_all add: AList.distinct_update)

lemma filter_calls:
  "filter (\<lambda>c. userId c = u) (map snd (filter (\<lambda>(r', c). r' = r) calls))
     = map snd (filter (\<lambda>(r', c). r' = r \<and> userId c = u) calls)"
  by (induction calls) (simp_all add: split_def)

lemma latestCursor_eq:
  "latestCursor r u calls =
     map_of (foldl (\<lambda>m c. AList.update (userId c) c m) []
               (map snd (filter (\<lambda>(r', c). r' = r) calls))) u"
proof (cases "filter (\<lambda>(r', c). r' = r \<and> userId c = u) calls")
  case Nil
  then show ?thesis by (simp add: latestCursor_def map_of_foldl_update filter_calls)
next
  case (Cons p ps)
  have "last (map snd (p # ps)) = snd (last (p # ps))" by (rule last_map) simp
  then show ?thesis using Cons
    by (simp add: latestCursor_def map_of_foldl_update filter_calls)
qed

lemma latestCursor_userId: "latestCursor r u calls = Some c \<Longrightarrow> userId c = u"
proof -
  assume a: "latestCursor r u calls = Some c"
  then obtain p ps where f: "filter (\<lambda>(r', c). r' = r \<and> userId c = u) calls = p # ps"
    by (cases "filter (\<lambda>(r', c). r' = r \<and> userId c = u) calls") (simp_all add: latestCursor_def)
  with a have c: "c = snd (last (p # ps))" by (simp add: latestCursor_def)
  have "last (p # ps) \<in> set (p # ps)" by (rule last_in_set) simp
  then have "last (p # ps) \<in> set (filter (\<lambda>(r', c). r' = r \<and> userId c = u) calls)"
    by (simp only: f)
  then show ?thesis by (auto simp add: c)
qed

lemma emitted_iff:
  "(r, cs) \<in> set (fst (flushCursorBatches b)) \<longleftrightarrow> (\<exists>m. (r, m) \<in> set b \<and> m \<noteq> [] \<and> cs = map snd m)"
  by (auto simp add: flush_fst)

lemma entry_accumulator:
  "distinct (map fst b) \<Longrightarrow> (r, m) \<in> set b \<Longrightarrow> accumulator r b = m"
  by (simp add: accumulator_def)

lemma pending_eq:
  "accumulator r (batchCursorUpdates calls (snd (flushCursorBatches b0))) =
     foldl (\<lambda>m c. AList.update (userId c) c m) []
       (map snd (filter (\<lambda>(r', c). r' = r) calls))"
  by (simp add: accumulator_batchCursorUpdates)

lemma pending_map_of:
  "map_of (accumulator r (batchCursorUpdates calls (snd (flushCursorBatches b0)))) u
     = latestCursor r u calls"
  by (simp add: pending_eq latestCursor_eq)

lemma pending_distinct:
  "distinct (map fst (accumulator r (batchCursorUpdates calls (snd (flushCursorBatches b0)))))"
  by (simp add: pending_eq distinct_foldl_update)

lemma pending_entry:
  assumes "(u, c) \<in> set (accumulator r (batchCursorUpdates calls (snd (flushCursorBatches b0))))"
  shows "latestCursor r u calls = Some c" and "userId c = u"
proof -
  from assms pending_distinct[of r calls b0]
  have "map_of (accumulator r (batchCursorUpdates calls (snd (flushCursorBatches b0)))) u = Some c"
    by simp
  then show "latestCursor r u calls = Some c" by (simp add: pending_map_of)
  then show "userId c = u" by (rule latestCursor_userId)
qed

lemma pending_userIds:
  "map userId (map snd (accumulator r (batchCursorUpdates calls (snd (flushCursorBatches b0)))))
     = map fst (accumulator r (batchCursorUpdates calls (snd (flushCursorBatches b0))))"
  using pending_entry(2)[of _ _ r calls b0] by (auto simp add: split_def)

lemma cursor_at_userId [simp]: "userId (cursor_at uid px py t) = uid"
  by (simp add: cursor_at_def)

lemma moves_pending:
  "batchCursorUpdates moves [(''lobby1'', [])]
     = [(''lobby1'', [(''user_a'', cursor_at ''user_a'' 30 30 1020), (''user_b'', cursor_at ''user_b'' 20 20 1010)]),
        (''lobby2'', [(''user_c'', cursor_at ''user_c'' 5 5 1005)])]"
  by (simp add: batchCursorUpdates_def moves_def batchCursorUpdate_def Let_def)

lemma moves_latest: "latestCursor ''lobby1'' ''user_a'' moves = Some (cursor_at ''user_a'' 30 30 1020)"
  by (simp add: latestCursor_def moves_def)

text \<open>
  Claim C5. Let \<^verbatim>\<open>cursorBatches\<close> be any map (its keys are distinct), let a flush pass
  over it, let any run of calls of \<^verbatim>\<open>batchCursorUpdate\<close> follow, for any rooms and users,
  and let the next flush pass. Then every \<^verbatim>\<open>cursors:batch\<close> message of that flush is not
  empty, has at most one entry per user id, and each entry is the cursor that the last call
  for that room and user passed since the flush before. Conversely the latest cursor of
  every room and user that had a call is in the message of its room, and there is one
  message per room. A room whose accumulator is empty gets no message. After the flush
  every accumulator is empty, so that a flush right after it sends nothing.
\<close>

theorem C5_cursor_batch:
  assumes "distinct (map fst b0)"
  shows "let pending = batchCursorUpdates calls (snd (flushCursorBatches b0));
             emitted = fst (flushCursorBatches pending);
             cleared = snd (flushCursorBatches pending)
         in (\<forall>(r, cs) \<in> set emitted.
               cs \<noteq> [] \<and> distinct (map userId cs)
               \<and> (\<forall>c \<in> set cs. latestCursor r (userId c) calls = Some c))
            \<and> (\<forall>r u c. latestCursor r u calls = Some c \<longrightarrow>
                  (\<exists>cs. (r, cs) \<in> set emitted \<and> c \<in> set cs))
            \<and> distinct (map fst emitted)
            \<and> (\<forall>r. accumulator r pending = [] \<longrightarrow> (\<forall>cs. (r, cs) \<notin> set emitted))
            \<and> (\<forall>(r, m) \<in> set cleared. m = [])
            \<and> fst (flushCursorBatches cleared) = []"
proof -
  let ?p = "batchCursorUpdates calls (snd (flushCursorBatches b0))"
  have d0: "distinct (map fst (snd (flushCursorBatches b0)))"
    using assms by (simp add: flush_keys)
  have dp: "distinct (map fst ?p)" using d0 by (rule distinct_batchCursorUpdates)
  have one: "\<forall>(r, cs) \<in> set (fst (flushCursorBatches ?p)).
               cs \<noteq> [] \<and> distinct (map userId cs)
               \<and> (\<forall>c \<in> set cs. latestCursor r (userId c) calls = Some c)"
  proof (clarify, intro conjI ballI)
    fix r cs assume "(r, cs) \<in> set (fst (flushCursorBatches ?p))"
    then obtain m where m: "(r, m) \<in> set ?p" "m \<noteq> []" "cs = map snd m"
      by (auto simp add: emitted_iff)
    from dp m(1) have acc: "accumulator r ?p = m" by (rule entry_accumulator)
    show "cs \<noteq> []" using m by simp
    have "map userId (map snd m) = map fst m"
      using pending_userIds[of r calls b0] unfolding acc .
    moreover have "distinct (map fst m)"
      using pending_distinct[of r calls b0] unfolding acc .
    ultimately show "distinct (map userId cs)" unfolding m(3) by (simp only:)
    fix c assume "c \<in> set cs"
    then obtain u where "(u, c) \<in> set m" using m(3) by auto
    then have "(u, c) \<in> set (accumulator r ?p)" by (simp add: acc)
    from pending_entry[OF this] show "latestCursor r (userId c) calls = Some c" by simp
  qed
  have two: "\<forall>r u c. latestCursor r u calls = Some c \<longrightarrow>
                  (\<exists>cs. (r, cs) \<in> set (fst (flushCursorBatches ?p)) \<and> c \<in> set cs)"
  proof (intro allI impI)
    fix r u c assume l: "latestCursor r u calls = Some c"
    then have mo: "map_of (accumulator r ?p) u = Some c" by (simp add: pending_map_of)
    then have uc: "(u, c) \<in> set (accumulator r ?p)" by (rule map_of_SomeD)
    then have ne: "accumulator r ?p \<noteq> []" by auto
    then obtain m where s: "map_of ?p r = Some m"
      by (cases "map_of ?p r") (simp_all add: accumulator_def)
    then have acc: "accumulator r ?p = m" by (simp add: accumulator_def)
    from s have "(r, m) \<in> set ?p" by (rule map_of_SomeD)
    with ne acc have "(r, map snd m) \<in> set (fst (flushCursorBatches ?p))"
      by (auto simp add: emitted_iff)
    moreover from uc acc have "c \<in> set (map snd m)" by force
    ultimately show "\<exists>cs. (r, cs) \<in> set (fst (flushCursorBatches ?p)) \<and> c \<in> set cs" by blast
  qed
  have three: "distinct (map fst (fst (flushCursorBatches ?p)))"
  proof -
    have "map fst (fst (flushCursorBatches ?p)) = map fst (filter (\<lambda>(r, m). m \<noteq> []) ?p)"
      by (simp add: flush_fst split_def comp_def)
    then show ?thesis using dp by (simp add: distinct_map_filter)
  qed
  have four: "\<forall>r. accumulator r ?p = [] \<longrightarrow> (\<forall>cs. (r, cs) \<notin> set (fst (flushCursorBatches ?p)))"
  proof (intro allI impI notI)
    fix r cs assume e: "accumulator r ?p = []" and "(r, cs) \<in> set (fst (flushCursorBatches ?p))"
    then obtain m where m: "(r, m) \<in> set ?p" "m \<noteq> []" by (auto simp add: emitted_iff)
    from dp m(1) have "accumulator r ?p = m" by (rule entry_accumulator)
    with e m(2) show False by simp
  qed
  have five: "\<forall>(r, m) \<in> set (snd (flushCursorBatches ?p)). m = []"
    by (auto simp add: flush_snd)
  have six: "fst (flushCursorBatches (snd (flushCursorBatches ?p))) = []"
    by (simp add: flush_fst flush_snd filter_empty_conv split_def)
  show ?thesis
    unfolding Let_def using one two three four five six by blast
qed

theorem C5_cursor_batch_witness:
  "distinct (map fst [(''lobby1'', [(''user_a'', cursor_at ''user_a'' 1 1 900)])])
   \<and> fst (flushCursorBatches (batchCursorUpdates moves
             (snd (flushCursorBatches [(''lobby1'', [(''user_a'', cursor_at ''user_a'' 1 1 900)])]))))
       = [(''lobby1'', [cursor_at ''user_a'' 30 30 1020, cursor_at ''user_b'' 20 20 1010]),
          (''lobby2'', [cursor_at ''user_c'' 5 5 1005])]
   \<and> latestCursor ''lobby1'' ''user_a'' moves = Some (cursor_at ''user_a'' 30 30 1020)
   \<and> accumulator ''lobby3'' (batchCursorUpdates moves
             (snd (flushCursorBatches [(''lobby1'', [(''user_a'', cursor_at ''user_a'' 1 1 900)])]))) = []
   \<and> snd (flushCursorBatches (batchCursorUpdates moves
             (snd (flushCursorBatches [(''lobby1'', [(''user_a'', cursor_at ''user_a'' 1 1 900)])]))))
       = [(''lobby1'', []), (''lobby2'', [])]"
  using C5_cursor_batch[of "[(''lobby1'', [(''user_a'', cursor_at ''user_a'' 1 1 900)])]" moves]
    moves_latest
  by (simp add: moves_pending Let_def accumulator_def)

section \<open>The keys of the Redis keyspace\<close>

text \<open>Keys of two kinds never coincide, and a key determines its room.\<close>

lemma KEYS_inj:
  "KEYS_roomMeta a = KEYS_roomMeta b \<longleftrightarrow> a = b"
  "KEYS_roomUsers a = KEYS_roomUsers b \<longleftrightarrow> a = b"
  "KEYS_roomCursors a = KEYS_roomCursors b \<longleftrightarrow> a = b"
  by (simp_all add: KEYS_roomMeta_def KEYS_roomUsers_def KEYS_roomCursors_def)

lemma KEYS_disjoint:
  "KEYS_roomMeta a \<noteq> KEYS_roomUsers b"
  "KEYS_roomMeta a \<noteq> KEYS_roomVideo b"
  "KEYS_roomMeta a \<noteq> KEYS_roomCursors b"
  "KEYS_roomUsers a \<noteq> KEYS_roomVideo b"
  "KEYS_roomUsers a \<noteq> KEYS_roomCursors b"
  "KEYS_roomVideo a \<noteq> KEYS_roomCursors b"
  "KEYS_allRooms \<noteq> KEYS_roomMeta a"
  "KEYS_allRooms \<noteq> KEYS_roomUsers a"
  "KEYS_allRooms \<noteq> KEYS_roomVideo a"
  "KEYS_allRooms \<noteq> KEYS_roomCursors a"
  "rateLimitKey act u \<noteq> KEYS_roomMeta a"
  "rateLimitKey act u \<noteq> KEYS_roomUsers a"
  "rateLimitKey act u \<noteq> KEYS_roomVideo a"
  "rateLimitKey act u \<noteq> KEYS_roomCursors a"
  "rateLimitKey act u \<noteq> KEYS_allRooms"
  by (auto simp add: KEYS_roomMeta_def KEYS_roomUsers_def KEYS_roomVideo_def KEYS_roomCursors_def
        KEYS_allRooms_def rateLimitKey_def dest: arg_cong[where f = rev])

section \<open>The range of the playback position\<close>

lemma video_ok_serverTimestamp [simp]: "video_ok w (s\<lparr>serverTimestamp := t\<rparr>) = video_ok w s"
  by (simp add: video_ok_def)

lemma video_ok_isPlaying [simp]: "video_ok w (s\<lparr>isPlaying := b\<rparr>) = video_ok w s"
  by (simp add: video_ok_def)




































end
